theory Spec2Isabelle
  imports Complex_Main
begin

section \<open>Numbers and strings of the source language\<close>

text \<open>
  The dashboard computes with JavaScript numbers, which are IEEE doubles. Quantities that
  the code keeps integral (digits, floors, rounded values) are modelled as \<open>int\<close>.

  The allocation and the totals are modelled with exact real arithmetic: the products by
  the literals \<open>0.11\<close>, \<open>0.19\<close>, \<open>0.4\<close>, \<open>0.25\<close> and \<open>0.45\<close> are the exact ones. On the
  digits 0..9 the four floors are those of the doubles; a product by \<open>0.45\<close> in doubles
  can differ from the exact one in its last place (\<open>13 * 0.45\<close> is \<open>5.8500000000000005\<close>),
  though not at the code 333.

  The two series are modelled in double arithmetic, as the rounding decides values there:
  \<open>Math.PI\<close> is the double nearest to \<open>pi\<close>, so the sine of \<open>2 * Math.PI\<close> is not 0 but
  about \<open>-2.4e-16\<close>, and \<open>1/5\<close> of it added to \<open>1/2\<close> rounds to 0, not to 1.
\<close>

definition Math_floor :: "real \<Rightarrow> int" where
  "Math_floor x = \<lfloor>x\<rfloor>"

text \<open>\<open>Math.round\<close> rounds to the nearest integer, a tie going up.\<close>

definition Math_round :: "real \<Rightarrow> int" where
  "Math_round x = \<lfloor>x + 1 / 2\<rfloor>"

text \<open>
  Round to nearest, ties to even: the integer nearest to \<open>y\<close>, the even one of the two
  when \<open>y\<close> lies half way.
\<close>

definition round_even :: "real \<Rightarrow> int" where
  "round_even y =
     (let f = \<lfloor>y\<rfloor>; r = y - real_of_int f
      in if r < 1 / 2 then f else if 1 / 2 < r then f + 1 else if even f then f else f + 1)"

text \<open>
  The double nearest to a real \<open>x\<close> (binary64, round to nearest, ties to even): with
  \<open>2^e \<le> |x| < 2^(e+1)\<close> the doubles around \<open>x\<close> are the multiples of \<open>2^(e-52)\<close>.
  Overflow, subnormal numbers and the sign of zero are not modelled: no value here comes
  near the first two, and \<open>Math.round\<close>, \<open>+\<close> and \<open>Math.max(0, .)\<close> give the same for
  either zero.
\<close>

definition fl :: "real \<Rightarrow> real" where
  "fl x =
     (if x = 0 then 0
      else let u = 2 powr real_of_int (\<lfloor>log 2 \<bar>x\<bar>\<rfloor> - 52)
           in real_of_int (round_even (x / u)) * u)"

text \<open>The operators \<open>+\<close>, \<open>*\<close> and \<open>/\<close> on doubles: the exact result, rounded.\<close>

definition fadd :: "real \<Rightarrow> real \<Rightarrow> real" where
  "fadd x y = fl (x + y)"

definition fmul :: "real \<Rightarrow> real \<Rightarrow> real" where
  "fmul x y = fl (x * y)"

definition fdiv :: "real \<Rightarrow> real \<Rightarrow> real" where
  "fdiv x y = fl (x / y)"

text \<open>\<open>Math.PI\<close> is the double \<open>3.141592653589793\<close>, that is \<open>884279719003555 / 2^48\<close>.\<close>

definition Math_PI :: real where
  "Math_PI = 884279719003555 / 2 ^ 48"

text \<open>
  \<open>Math.sin\<close> and \<open>Math.cos\<close> are taken to return the double nearest to the exact sine
  and cosine of their argument.
\<close>

definition Math_sin :: "real \<Rightarrow> real" where
  "Math_sin x = fl (sin x)"

definition Math_cos :: "real \<Rightarrow> real" where
  "Math_cos x = fl (cos x)"

text \<open>The pattern \<open>\d\<close> of a regular expression: one of the ten ASCII digits.\<close>

definition is_digit :: "char \<Rightarrow> bool" where
  "is_digit c = (48 \<le> (of_char c :: nat) \<and> (of_char c :: nat) \<le> 57)"

text \<open>
  \<open>Number(c)\<close> on a string of one character: the digit's value; \<open>None\<close> stands for
  the results on other characters (\<open>NaN\<close>, or 0 on white space), which are not modelled.
\<close>

definition Number_char :: "char \<Rightarrow> int option" where
  "Number_char c = (if is_digit c then Some (int (of_char c) - 48) else None)"

text \<open>\<open>s.padStart(n, c)\<close> for a filler \<open>c\<close> of one character.\<close>

definition padStart :: "nat \<Rightarrow> char \<Rightarrow> string \<Rightarrow> string" where
  "padStart n c s = replicate (n - length s) c @ s"

text \<open>\<open>String(n)\<close> for a natural number: its decimal digits, most significant first.\<close>

definition digit_char :: "nat \<Rightarrow> char" where
  \<comment> \<open>used below 10 only\<close>
  "digit_char d = ''0123456789'' ! d"

fun String_nat :: "nat \<Rightarrow> string" where
  "String_nat n = (if n < 10 then [digit_char n] else String_nat (n div 10) @ [digit_char (n mod 10)])"

declare String_nat.simps [simp del]

section \<open>DashboardCharts.jsx\<close>

definition EF_GRID :: real where
  "EF_GRID = 0.45"

record digits =
  code :: string
  homeKWh :: int
  solarKWh :: int
  gridKWh :: int

text \<open>
  The normalised code of \<open>useDigitsToKwh\<close>: \<open>String(code || "")\<close> with the non-digits
  removed, padded on the left to three characters and cut after the third. The route
  parameter is a string or \<open>undefined\<close> (\<open>None\<close>).
\<close>

definition normalize_code :: "string option \<Rightarrow> string" where
  "normalize_code c =
     take 3 (padStart 3 (CHR ''0'') (filter is_digit (case c of None \<Rightarrow> [] | Some s \<Rightarrow> s)))"

text \<open>
  The destructuring \<open>[h, sol, g] = s.split("").map(Number)\<close> takes the first three elements;
  \<open>None\<close> is the case where one of them is missing or not a digit's value.
\<close>

definition useDigitsToKwh :: "string option \<Rightarrow> digits option" where
  "useDigitsToKwh c =
     (let s = normalize_code c in
      case map Number_char s of
        Some h # Some sol # Some g # _ \<Rightarrow>
          Some \<lparr>code = s, homeKWh = h, solarKWh = sol, gridKWh = g\<rparr>
      | _ \<Rightarrow> None)"

record solar_alloc =
  toBattery :: int
  toHome :: int
  toGrid :: int

definition allocSolarFlows :: "int \<Rightarrow> solar_alloc" where
  "allocSolarFlows solar =
     (let tb = Math_floor (real_of_int solar * 0.11);
          th = Math_floor (real_of_int solar * 0.19);
          tg = max (solar - tb - th) 0
      in \<lparr>toBattery = tb, toHome = th, toGrid = tg\<rparr>)"

record home_alloc =
  fromSolar :: int
  fromBattery :: int
  fromGrid :: int

definition allocHomeSources :: "int \<Rightarrow> int \<Rightarrow> int \<Rightarrow> home_alloc" where
  "allocHomeSources home fSolar fBattery =
     (let s = min fSolar (Math_floor (real_of_int home * 0.4));
          b = min fBattery (Math_floor (real_of_int home * 0.25));
          g = max (home - s - b) 0
      in \<lparr>fromSolar = s, fromBattery = b, fromGrid = g\<rparr>)"

definition is_digit_value :: "int \<Rightarrow> bool" where
  "is_digit_value d = (0 \<le> d \<and> d \<le> 9)"

text \<open>
  One entry of the weekly series, for the loop index \<open>i\<close> of \<open>buildSeries\<close>
  (the source computes with \<open>t = i + 1\<close>).
\<close>

record week_point =
  wk_t :: string
  temperature :: int
  humidity :: int
  grid :: int

definition week_point_at :: "int \<Rightarrow> int \<Rightarrow> int \<Rightarrow> nat \<Rightarrow> week_point" where
  "week_point_at home solar gridK i =
     (let t = i + 1 in
      \<lparr>wk_t = ''W'' @ String_nat t,
       temperature =
         max 0 (solar + Math_round
           (fmul (Math_sin (fmul (fdiv (real t) 3) Math_PI)) (fdiv (real_of_int solar) 2))),
       humidity =
         max 0 (home + Math_round
           (fmul (Math_cos (fmul (fdiv (real t) 4) Math_PI)) (fdiv (real_of_int home) 2))),
       grid =
         max 0 (gridK + Math_round
           (fmul (Math_sin (fmul (fdiv (real t) 5) Math_PI)) (fdiv (real_of_int gridK) 2)))\<rparr>)"

definition pts :: nat where
  "pts = 12"

function buildSeries_loop ::
  "int \<Rightarrow> int \<Rightarrow> int \<Rightarrow> nat \<Rightarrow> week_point list \<Rightarrow> week_point list" where
  "buildSeries_loop home solar gridK i out =
     (if i < pts
      then buildSeries_loop home solar gridK (i + 1) (out @ [week_point_at home solar gridK i])
      else out)"
  by pat_completeness auto
termination
  by (relation "measure (\<lambda>(home, solar, gridK, i, out). pts - i)") auto

declare buildSeries_loop.simps [simp del]

definition buildSeries :: "int \<Rightarrow> int \<Rightarrow> int \<Rightarrow> week_point list" where
  "buildSeries home solar gridK = buildSeries_loop home solar gridK 0 []"

text \<open>One entry of \<open>daySeries\<close>, the callback of \<open>Array.from({ length: 10 }, ...)\<close>.\<close>

record day_point =
  day_t :: string
  day_toHome :: int
  orientation :: int

definition day_point_at :: "int \<Rightarrow> int \<Rightarrow> nat \<Rightarrow> day_point" where
  "day_point_at tHome tGrid i =
     \<lparr>day_t = String_nat i @ '':00'',
      day_toHome =
        max 0 (Math_round
          (fadd (fmul (fdiv (real_of_int tHome) 5) (Math_sin (fmul (fdiv (real i) 3) Math_PI)))
                (fdiv (real_of_int tHome) 2))),
      orientation =
        max 0 (Math_round
          (fadd (fmul (fdiv (real_of_int tGrid) 5) (Math_cos (fmul (fdiv (real i) 3) Math_PI)))
                (fdiv (real_of_int tGrid) 2)))\<rparr>"

definition Array_from :: "nat \<Rightarrow> (nat \<Rightarrow> 'a) \<Rightarrow> 'a list" where
  "Array_from n f = map f [0..<n]"

record pie_slice =
  pie_name :: string
  pie_value :: int

record grid_bar =
  bar_name :: string
  bar_fromGrid :: int
  bar_toGrid :: int

text \<open>
  What \<open>DashboardCharts\<close> computes from the digits before it renders: the values bound in
  its body, and the "net exported" figure computed in the markup.
\<close>

record dashboard =
  normalized :: string
  solarAllocation :: solar_alloc
  homeAllocation :: home_alloc
  totalKWh :: int
  emissionsKg :: real
  avoidedKg :: real
  series :: "week_point list"
  daySeries :: "day_point list"
  solarPie :: "pie_slice list"
  homePie :: "pie_slice list"
  gridBar :: "grid_bar list"
  netExported :: int
  gaugeVal :: int

definition dashboard_of :: "digits \<Rightarrow> dashboard" where
  "dashboard_of d =
     (let home = homeKWh d; solar = solarKWh d; gridK = gridKWh d;
          sa = allocSolarFlows solar;
          ha = allocHomeSources home (toHome sa) (toBattery sa)
      in \<lparr>normalized = code d,
          solarAllocation = sa,
          homeAllocation = ha,
          totalKWh = home + solar + gridK,
          emissionsKg = real_of_int (home + gridK) * EF_GRID,
          avoidedKg = real_of_int solar * EF_GRID,
          series = buildSeries home solar gridK,
          daySeries = Array_from 10 (day_point_at (toHome sa) (toGrid sa)),
          solarPie =
            [\<lparr>pie_name = ''To Battery'', pie_value = toBattery sa\<rparr>,
             \<lparr>pie_name = ''To Home'', pie_value = toHome sa\<rparr>,
             \<lparr>pie_name = ''To Grid'', pie_value = toGrid sa\<rparr>],
          homePie =
            [\<lparr>pie_name = ''From Solar'', pie_value = fromSolar ha\<rparr>,
             \<lparr>pie_name = ''From Battery'', pie_value = fromBattery ha\<rparr>,
             \<lparr>pie_name = ''From Grid'', pie_value = fromGrid ha\<rparr>],
          gridBar = [\<lparr>bar_name = ''Grid'', bar_fromGrid = gridK, bar_toGrid = toGrid sa\<rparr>],
          netExported = max (toGrid sa - gridK) 0,
          gaugeVal = min 100 (toBattery sa * 10)\<rparr>)"

definition DashboardCharts :: "string option \<Rightarrow> dashboard option" where
  "DashboardCharts c = map_option dashboard_of (useDigitsToKwh c)"

text \<open>A digit triple: the three digits of a code, each between 0 and 9.\<close>

definition digit_triple :: "digits \<Rightarrow> bool" where
  "digit_triple d = (is_digit_value (homeKWh d) \<and> is_digit_value (solarKWh d) \<and> is_digit_value (gridKWh d))"

text \<open>
  The value the specification gives for an entry of a synthesised series, following its
  words: \<open>base + round(w * base/2)\<close> clamped at 0, where \<open>w\<close> is the sine or cosine of
  the entry's phase; the product and the quotient are those of the program's numbers.
\<close>

definition spec_series_value :: "int \<Rightarrow> real \<Rightarrow> int" where
  "spec_series_value base w = max 0 (base + Math_round (fmul w (fdiv (real_of_int base) 2)))"

section \<open>UploadAndPickLeaflet.jsx\<close>

text \<open>
  File names are strings of characters; the two regular expressions of
  \<open>extractTrailingNumber\<close> only tell the dot and the ten digits from all other characters.

  A regular expression without the \<open>g\<close> flag is tried at each start position from the left,
  and both patterns end in \<open>$\<close>, so a match at a position is a match of the whole rest of
  the string. \<open>ext_here s\<close>: the pattern \<open>\.[^.]+$\<close> matches all of \<open>s\<close>.
\<close>

definition ext_here :: "string \<Rightarrow> bool" where
  "ext_here s = (case s of [] \<Rightarrow> False | c # cs \<Rightarrow> c = CHR ''.'' \<and> cs \<noteq> [] \<and> CHR ''.'' \<notin> set cs)"

text \<open>\<open>name.replace(/\.[^.]+$/, "")\<close>: the first match, if any, is replaced by nothing.\<close>

fun strip_extension :: "string \<Rightarrow> string" where
  "strip_extension [] = []"
| "strip_extension (c # cs) = (if ext_here (c # cs) then [] else c # strip_extension cs)"

text \<open>\<open>digits_here s\<close>: the pattern \<open>\d{1,3}$\<close> matches all of \<open>s\<close>.\<close>

definition digits_here :: "string \<Rightarrow> bool" where
  "digits_here s = (1 \<le> length s \<and> length s \<le> 3 \<and> list_all is_digit s)"

text \<open>\<open>base.match(/(\d{1,3})$/)\<close>: the group of the first match, \<open>None\<close> for \<open>null\<close>.\<close>

fun match_trailing :: "string \<Rightarrow> string option" where
  "match_trailing [] = None"
| "match_trailing (c # cs) = (if digits_here (c # cs) then Some (c # cs) else match_trailing cs)"

definition decimal_value :: "string \<Rightarrow> nat" where
  "decimal_value ds = foldl (\<lambda>n c. 10 * n + (of_char c - 48)) 0 ds"

text \<open>
  \<open>parseInt(s, 10)\<close>: the value of the leading digits of \<open>s\<close>; \<open>None\<close> is \<open>NaN\<close>, for a
  string that does not start with a digit (signs and leading white space are not modelled;
  the matched group has neither).
\<close>

definition parseInt10 :: "string \<Rightarrow> nat option" where
  "parseInt10 s =
     (let ds = takeWhile is_digit s in if ds = [] then None else Some (decimal_value ds))"

text \<open>
  The two messages of \<open>extractTrailingNumber\<close>: "Filename must end in a number (001-100)."
  and "Number must be 001-100."; the empty message \<open>""\<close> is \<open>None\<close>.
\<close>

datatype file_error = NoTrailingNumber | OutOfRange

record extract_result =
  num :: "nat option"
  error :: "file_error option"

definition extractTrailingNumber :: "string \<Rightarrow> extract_result" where
  "extractTrailingNumber name =
     (let base = strip_extension name in
      case match_trailing base of
        None \<Rightarrow> \<lparr>num = None, error = Some NoTrailingNumber\<rparr>
      | Some m \<Rightarrow>
          (case parseInt10 m of
             None \<Rightarrow> \<lparr>num = None, error = Some OutOfRange\<rparr>
           | Some n \<Rightarrow>
               if n < 1 \<or> n > 100 then \<lparr>num = None, error = Some OutOfRange\<rparr>
               else \<lparr>num = Some n, error = None\<rparr>))"

record position =
  lat :: real
  lng :: real

text \<open>
  The component's state that the file input, the map and the search write. The search text
  and the search's error message have no part in what follows and are left out.
\<close>

record ui_state =
  fileName :: string
  fileNumber :: "nat option"
  fileError :: "file_error option"
  marker :: "position option"
  center :: position

definition initial_state :: ui_state where
  "initial_state =
     \<lparr>fileName = [], fileNumber = None, fileError = None, marker = None,
      center = \<lparr>lat = - 37.78737, lng = 175.28221\<rparr>\<rparr>"

text \<open>\<open>onFileChange\<close>, given the name of \<open>e.target.files?.[0]\<close> if there is such a file.\<close>

definition onFileChange :: "string option \<Rightarrow> ui_state \<Rightarrow> ui_state" where
  "onFileChange f st =
     (case f of
        None \<Rightarrow> st
      | Some name \<Rightarrow>
          (let r = extractTrailingNumber name
           in st\<lparr>fileName := name, fileNumber := num r, fileError := error r\<rparr>))"

definition setMarker :: "position \<Rightarrow> ui_state \<Rightarrow> ui_state" where
  "setMarker pos st = st\<lparr>marker := Some pos\<rparr>"

text \<open>
  What \<open>doSearch\<close> does to this state once the lookup has answered: a first result moves the
  centre and the marker, anything else (empty query, no result, failure) leaves them.
\<close>

definition doSearch :: "position option \<Rightarrow> ui_state \<Rightarrow> ui_state" where
  "doSearch found st =
     (case found of None \<Rightarrow> st | Some pos \<Rightarrow> st\<lparr>marker := Some pos, center := pos\<rparr>)"

definition canContinue :: "ui_state \<Rightarrow> bool" where
  "canContinue st = (fileNumber st \<noteq> None \<and> fileError st = None \<and> marker st \<noteq> None)"

record navigation =
  path :: string
  nav_fileName :: string
  nav_location :: position

text \<open>\<open>handleContinue\<close>: the navigation it asks for, \<open>None\<close> when it returns without one.\<close>

definition handleContinue :: "ui_state \<Rightarrow> navigation option" where
  "handleContinue st =
     (if \<not> canContinue st \<or> marker st = None then None
      else case (fileNumber st, marker st) of
        (Some n, Some m) \<Rightarrow>
          Some \<lparr>path = ''/dashboard/'' @ padStart 3 (CHR ''0'') (String_nat n),
                nav_fileName = fileName st, nav_location = m\<rparr>
      | _ \<Rightarrow> None)"

datatype event = FileChange "string option" | MapClick position | SearchDone "position option"

fun handle :: "ui_state \<Rightarrow> event \<Rightarrow> ui_state" where
  "handle st (FileChange f) = onFileChange f st"
| "handle st (MapClick pos) = setMarker pos st"
| "handle st (SearchDone found) = doSearch found st"

text \<open>The state after a sequence of events, from the initial render.\<close>

definition after_events :: "event list \<Rightarrow> ui_state" where
  "after_events es = foldl handle initial_state es"

text \<open>
  The two patterns read from the end of the string: \<open>/(\d{1,3})$/\<close> matches when the last
  character is a digit, and it captures the digits at the end, the last three at most.
\<close>

definition last_is_digit :: "string \<Rightarrow> bool" where
  "last_is_digit s = (s \<noteq> [] \<and> is_digit (last s))"

definition captured_digits :: "string \<Rightarrow> string" where
  "captured_digits s = rev (takeWhile is_digit (take 3 (rev s)))"

text \<open>
  The file-name rule in the words of the specification. The trailing digits of a base name
  are all the digits at its end; the base name ends in 1-3 digits when there are one, two or
  three of them; a name is in error when its base name does not end in 1-3 digits or its
  trailing digits are a number outside 1..100.
\<close>

definition digit_run :: "string \<Rightarrow> string" where
  "digit_run s = rev (takeWhile is_digit (rev s))"

definition ends_in_1_to_3_digits :: "string \<Rightarrow> bool" where
  "ends_in_1_to_3_digits s = (1 \<le> length (digit_run s) \<and> length (digit_run s) \<le> 3)"

definition spec_file_error :: "string \<Rightarrow> bool" where
  "spec_file_error name =
     (\<not> ends_in_1_to_3_digits (strip_extension name)
      \<or> decimal_value (digit_run (strip_extension name)) \<notin> {1..100})"

text \<open>
  The invariant of the upload page: a number in the state is the number extracted from the
  file name in the state.
\<close>

definition file_checked :: "ui_state \<Rightarrow> bool" where
  "file_checked st =
     (\<forall>n. fileNumber st = Some n \<longrightarrow>
        extractTrailingNumber (fileName st) = \<lparr>num = Some n, error = None\<rparr>)"

section \<open>Double arithmetic\<close>

text \<open>Rounding moves a number by at most half a unit in the last place.\<close>

lemma round_even_close: "\<bar>real_of_int (round_even y) - y\<bar> \<le> 1 / 2"
proof -
  have "real_of_int \<lfloor>y\<rfloor> \<le> y" "y < real_of_int \<lfloor>y\<rfloor> + 1"
    by linarith+
  then show ?thesis
    by (auto simp add: round_even_def Let_def)
qed

lemma round_even_of_int: "round_even (real_of_int m) = m"
  by (simp add: round_even_def)

lemma fl_zero: "fl 0 = 0"
  by (simp add: fl_def)

lemma fl_binade:
  assumes "2 powr real_of_int k \<le> \<bar>x\<bar>" and "\<bar>x\<bar> < 2 powr (real_of_int k + 1)"
  shows "fl x = real_of_int (round_even (x / 2 powr real_of_int (k - 52))) * 2 powr real_of_int (k - 52)"
proof -
  have "0 < 2 powr real_of_int k" by simp
  with assms(1) have pos: "0 < \<bar>x\<bar>" by linarith
  then have "\<lfloor>log 2 \<bar>x\<bar>\<rfloor> = k"
    using assms by (simp add: floor_log_eq_powr_iff)
  with pos show ?thesis by (simp add: fl_def Let_def)
qed

lemma fl_close: "\<bar>fl x - x\<bar> \<le> \<bar>x\<bar> / 2 ^ 53"
proof (cases "x = 0")
  case True
  then show ?thesis by (simp add: fl_def)
next
  case False
  define e where "e = \<lfloor>log 2 \<bar>x\<bar>\<rfloor>"
  define u where "u = 2 powr real_of_int (e - 52)"
  have upos: "0 < u" by (simp add: u_def)
  have "real_of_int e \<le> log 2 \<bar>x\<bar>" by (simp add: e_def)
  then have "2 powr real_of_int e \<le> \<bar>x\<bar>"
    using False by (simp add: powr_le_iff)
  moreover have "u = 2 powr real_of_int e / 2 ^ 52"
    by (simp add: u_def powr_diff)
  ultimately have ux: "u / 2 \<le> \<bar>x\<bar> / 2 ^ 53" by simp
  have "fl x - x = (real_of_int (round_even (x / u)) - x / u) * u"
    using False upos by (simp add: fl_def Let_def e_def u_def field_simps)
  then have "\<bar>fl x - x\<bar> = \<bar>real_of_int (round_even (x / u)) - x / u\<bar> * u"
    using upos by (simp add: abs_mult)
  also have "\<dots> \<le> (1 / 2) * u"
    using round_even_close [of "x / u"] upos by (intro mult_right_mono) simp_all
  finally show ?thesis using ux by simp
qed

lemma fl_exact:
  assumes "2 ^ 52 \<le> \<bar>m\<bar>" and "\<bar>m\<bar> < 2 ^ 53"
  shows "fl (real_of_int m * 2 powr real_of_int k) = real_of_int m * 2 powr real_of_int k"
proof -
  let ?x = "real_of_int m * 2 powr real_of_int k"
  have ax: "\<bar>?x\<bar> = real_of_int \<bar>m\<bar> * 2 powr real_of_int k"
    by (simp add: abs_mult)
  have p: "2 powr real_of_int (k + 52) = 2 ^ 52 * 2 powr real_of_int k"
    by (simp add: powr_add)
  have p1: "2 powr (real_of_int (k + 52) + 1) = 2 ^ 53 * 2 powr real_of_int k"
    by (simp add: powr_add)
  have "real_of_int (2 ^ 52) \<le> real_of_int \<bar>m\<bar>" using assms(1) by (simp only: of_int_le_iff)
  then have lo: "2 powr real_of_int (k + 52) \<le> \<bar>?x\<bar>"
    unfolding ax p by (intro mult_right_mono) simp_all
  have "real_of_int \<bar>m\<bar> < real_of_int (2 ^ 53)" using assms(2) by (simp only: of_int_less_iff)
  then have hi: "\<bar>?x\<bar> < 2 powr (real_of_int (k + 52) + 1)"
    unfolding ax p1 by (intro mult_strict_right_mono) simp_all
  show ?thesis
    using fl_binade [OF lo hi] by (simp add: round_even_of_int)
qed

lemma fl_exact_div:
  assumes "2 ^ 52 \<le> \<bar>m\<bar>" and "\<bar>m\<bar> < 2 ^ 53"
  shows "fl (real_of_int m / 2 ^ j) = real_of_int m / 2 ^ j"
  using fl_exact [OF assms, of "- int j"] by (simp add: powr_minus powr_realpow field_simps)

lemma fl_two: "fl 2 = 2"
  using fl_exact_div [of 4503599627370496 51] by simp

lemma fl_one: "fl 1 = 1"
  using fl_exact_div [of 4503599627370496 52] by simp

lemma fl_half: "fl (1 / 2) = 1 / 2"
  using fl_exact_div [of 4503599627370496 53] by simp

lemma fl_four: "fl 4 = 4"
  using fl_exact_div [of 4503599627370496 50] by simp

lemma fl_pos: "0 < x \<Longrightarrow> 0 < fl x"
proof -
  assume x: "0 < x"
  have "\<bar>x\<bar> / 2 ^ 53 < \<bar>x\<bar>" using x by simp
  with fl_close [of x] x show ?thesis by linarith
qed

lemma fl_neg: "x < 0 \<Longrightarrow> fl x < 0"
proof -
  assume x: "x < 0"
  have "\<bar>x\<bar> / 2 ^ 53 < \<bar>x\<bar>" using x by simp
  with fl_close [of x] x show ?thesis by linarith
qed

section \<open>Bounds on pi\<close>

text \<open>
  The partial sums of the arctangent series enclose the arctangent; with Machin's formula
  they place \<open>pi\<close> above \<open>Math.PI\<close>.
\<close>

lemma arctan_partial_sums:
  assumes "0 \<le> x" "x \<le> 1"
  shows "(\<Sum>i<2 * n. (- 1) ^ i * (1 / real (i * 2 + 1) * x ^ (i * 2 + 1))) \<le> arctan x"
    and "arctan x \<le> (\<Sum>i<2 * n + 1. (- 1) ^ i * (1 / real (i * 2 + 1) * x ^ (i * 2 + 1)))"
proof -
  let ?a = "\<lambda>n. 1 / real (n * 2 + 1) * x ^ (n * 2 + 1)"
  have z: "?a \<longlonglongrightarrow> 0"
    using assms by (intro zeroseq_arctan_series) simp
  have p: "0 \<le> ?a k" for k
    using assms by simp
  have m: "?a (Suc k) \<le> ?a k" for k
  proof -
    have "x ^ (Suc k * 2 + 1) \<le> x ^ (k * 2 + 1)"
      using assms by (intro power_decreasing) simp_all
    moreover have "1 / real (Suc k * 2 + 1) \<le> 1 / real (k * 2 + 1)"
      by (simp add: field_simps)
    ultimately show ?thesis
      using assms by (intro mult_mono) simp_all
  qed
  have s: "arctan x = (\<Sum>k. (- 1) ^ k * ?a k)"
    using assms by (intro arctan_series) simp
  show "(\<Sum>i<2 * n. (- 1) ^ i * ?a i) \<le> arctan x"
    unfolding s by (rule summable_Leibniz'(2) [OF z p m])
  show "arctan x \<le> (\<Sum>i<2 * n + 1. (- 1) ^ i * ?a i)"
    unfolding s by (rule summable_Leibniz'(4) [OF z p m])
qed

lemma pi_lower: "3.1415926535897932 < pi"
proof -
  have a: "(\<Sum>i<2 * 6. (- 1) ^ i * (1 / real (i * 2 + 1) * (1 / 5) ^ (i * 2 + 1))) \<le> arctan (1 / 5)"
    by (rule arctan_partial_sums(1)) simp_all
  have b: "arctan (1 / 239) \<le> (\<Sum>i<2 * 1 + 1. (- 1) ^ i * (1 / real (i * 2 + 1) * (1 / 239) ^ (i * 2 + 1)))"
    by (rule arctan_partial_sums(2)) simp_all
  have a': "2519848364191055346317888 / 797842276096343994140625 \<le> 16 * arctan (1 / 5)"
    using a by (simp add: eval_nat_numeral)
  have b': "4 * arctan (1 / 239) \<le> 195767376052 / 11697168977985"
    using b by (simp add: eval_nat_numeral)
  have "pi = 16 * arctan (1 / 5) - 4 * arctan (1 / 239)"
    using machin by simp
  with a' b' show ?thesis by simp
qed

lemma pi_upper: "pi \<le> 3.2"
proof -
  have "arctan (1 / 5) \<le> (\<Sum>i<2 * 0 + 1. (- 1) ^ i * (1 / real (i * 2 + 1) * (1 / 5) ^ (i * 2 + 1)))"
    by (rule arctan_partial_sums(2)) simp_all
  then have a: "16 * arctan (1 / 5) \<le> 16 / 5"
    by simp
  have b: "0 \<le> 4 * arctan (1 / 239)"
    by simp
  have "pi = 16 * arctan (1 / 5) - 4 * arctan (1 / 239)"
    using machin by simp
  with a b have "pi \<le> 16 / 5" by linarith
  then show ?thesis by simp
qed

section \<open>Allocation\<close>

lemma Math_floor_nonneg: "0 \<le> x \<Longrightarrow> 0 \<le> Math_floor x"
  by (simp add: Math_floor_def)

lemma Math_floor_le: "real_of_int (Math_floor x) \<le> x"
  unfolding Math_floor_def by (rule of_int_floor_le)

text \<open>
  The remainder absorbs the rounding: the two floors take at most 30 percent of the solar
  figure (65 percent of the home figure), so the clamp at 0 never acts on a non-negative input.
\<close>

lemma allocSolarFlows_sum:
  assumes "0 \<le> s"
  shows "toBattery (allocSolarFlows s) + toHome (allocSolarFlows s) + toGrid (allocSolarFlows s) = s"
proof -
  have "real_of_int (Math_floor (real_of_int s * 0.11) + Math_floor (real_of_int s * 0.19))
          \<le> real_of_int s"
    using Math_floor_le [of "real_of_int s * 0.11"] Math_floor_le [of "real_of_int s * 0.19"] assms
    by simp
  then have "Math_floor (real_of_int s * 0.11) + Math_floor (real_of_int s * 0.19) \<le> s"
    by linarith
  then show ?thesis by (simp add: allocSolarFlows_def Let_def)
qed

lemma allocSolarFlows_nonneg:
  assumes "0 \<le> s"
  shows "0 \<le> toBattery (allocSolarFlows s)" "0 \<le> toHome (allocSolarFlows s)"
    "0 \<le> toGrid (allocSolarFlows s)"
  using assms by (simp_all add: allocSolarFlows_def Let_def Math_floor_nonneg)

lemma allocHomeSources_sum:
  assumes "0 \<le> h"
  shows "fromSolar (allocHomeSources h fs fb) + fromBattery (allocHomeSources h fs fb)
         + fromGrid (allocHomeSources h fs fb) = h"
proof -
  have "real_of_int (Math_floor (real_of_int h * 0.4) + Math_floor (real_of_int h * 0.25))
          \<le> real_of_int h"
    using Math_floor_le [of "real_of_int h * 0.4"] Math_floor_le [of "real_of_int h * 0.25"] assms
    by simp
  then have "Math_floor (real_of_int h * 0.4) + Math_floor (real_of_int h * 0.25) \<le> h"
    by linarith
  then show ?thesis by (simp add: allocHomeSources_def Let_def min_def)
qed

lemma allocHomeSources_nonneg:
  assumes "0 \<le> h" "0 \<le> fs" "0 \<le> fb"
  shows "0 \<le> fromSolar (allocHomeSources h fs fb)" "0 \<le> fromBattery (allocHomeSources h fs fb)"
    "0 \<le> fromGrid (allocHomeSources h fs fb)"
  using assms by (simp_all add: allocHomeSources_def Let_def Math_floor_nonneg)

lemma solarAllocation_dashboard: "solarAllocation (dashboard_of d) = allocSolarFlows (solarKWh d)"
  by (simp add: dashboard_of_def Let_def)

lemma homeAllocation_dashboard:
  "homeAllocation (dashboard_of d) =
     allocHomeSources (homeKWh d) (toHome (allocSolarFlows (solarKWh d)))
       (toBattery (allocSolarFlows (solarKWh d)))"
  by (simp add: dashboard_of_def Let_def)

text \<open>
  Claim C1. For every digit triple, the solar allocation computed by \<open>allocSolarFlows\<close> and
  the home allocation computed from it by \<open>allocHomeSources\<close> are partitions: the three solar
  parts add up to the solar digit, the three home parts add up to the home digit, and none
  of the six parts is negative.
\<close>

theorem flows_partition:
  assumes "digit_triple d"
  shows "toBattery (solarAllocation (dashboard_of d)) + toHome (solarAllocation (dashboard_of d))
           + toGrid (solarAllocation (dashboard_of d)) = solarKWh d
         \<and> fromSolar (homeAllocation (dashboard_of d)) + fromBattery (homeAllocation (dashboard_of d))
           + fromGrid (homeAllocation (dashboard_of d)) = homeKWh d
         \<and> 0 \<le> toBattery (solarAllocation (dashboard_of d))
         \<and> 0 \<le> toHome (solarAllocation (dashboard_of d))
         \<and> 0 \<le> toGrid (solarAllocation (dashboard_of d))
         \<and> 0 \<le> fromSolar (homeAllocation (dashboard_of d))
         \<and> 0 \<le> fromBattery (homeAllocation (dashboard_of d))
         \<and> 0 \<le> fromGrid (homeAllocation (dashboard_of d))"
proof -
  from assms have s: "0 \<le> solarKWh d" and h: "0 \<le> homeKWh d"
    by (simp_all add: digit_triple_def is_digit_value_def)
  note sa = allocSolarFlows_nonneg [OF s]
  show ?thesis
    unfolding solarAllocation_dashboard homeAllocation_dashboard
    using allocSolarFlows_sum [OF s] allocHomeSources_sum [OF h] sa
      allocHomeSources_nonneg [OF h sa(2) sa(1)]
    by simp
qed

theorem flows_partition_witness:
  "digit_triple \<lparr>code = ''694'', homeKWh = 6, solarKWh = 9, gridKWh = 4\<rparr>
   \<and> solarAllocation (dashboard_of \<lparr>code = ''694'', homeKWh = 6, solarKWh = 9, gridKWh = 4\<rparr>)
       = \<lparr>toBattery = 0, toHome = 1, toGrid = 8\<rparr>
   \<and> homeAllocation (dashboard_of \<lparr>code = ''694'', homeKWh = 6, solarKWh = 9, gridKWh = 4\<rparr>)
       = \<lparr>fromSolar = 1, fromBattery = 0, fromGrid = 5\<rparr>
   \<and> (0::int) + 1 + 8 = 9 \<and> (1::int) + 0 + 5 = 6"
proof -
  have h: "digit_triple \<lparr>code = ''694'', homeKWh = 6, solarKWh = 9, gridKWh = 4\<rparr>"
    by (simp add: digit_triple_def is_digit_value_def)
  show ?thesis
    using h flows_partition [OF h]
    by (simp add: solarAllocation_dashboard homeAllocation_dashboard allocSolarFlows_def
        allocHomeSources_def Math_floor_def Let_def)
qed

section \<open>The code normaliser\<close>

lemma normalize_code_length: "length (normalize_code c) = 3"
  by (auto simp add: normalize_code_def padStart_def)

lemma normalize_code_digits: "list_all is_digit (normalize_code c)"
  unfolding normalize_code_def padStart_def list_all_iff
  by (auto simp: is_digit_def dest!: in_set_takeD)

lemma Number_char_digit:
  assumes "is_digit c"
  shows "\<exists>v. Number_char c = Some v \<and> is_digit_value v"
  using assms by (simp add: Number_char_def is_digit_def is_digit_value_def)

lemma length_three: "length xs = 3 \<Longrightarrow> \<exists>a b c. xs = [a, b, c]"
  by (auto simp add: numeral_3_eq_3 length_Suc_conv)

text \<open>
  The hook always returns: the normalised code has three digits, so the destructuring
  finds three digit values.
\<close>

lemma useDigitsToKwh_total:
  "\<exists>h s g. useDigitsToKwh c =
      Some \<lparr>code = normalize_code c, homeKWh = h, solarKWh = s, gridKWh = g\<rparr>
     \<and> is_digit_value h \<and> is_digit_value s \<and> is_digit_value g"
proof -
  obtain x y z where n: "normalize_code c = [x, y, z]"
    using length_three [OF normalize_code_length] by blast
  have d: "is_digit x" "is_digit y" "is_digit z"
    using normalize_code_digits [of c] by (simp_all add: n)
  obtain h where h: "Number_char x = Some h" "is_digit_value h"
    using Number_char_digit [OF d(1)] by blast
  obtain s where s: "Number_char y = Some s" "is_digit_value s"
    using Number_char_digit [OF d(2)] by blast
  obtain g where g: "Number_char z = Some g" "is_digit_value g"
    using Number_char_digit [OF d(3)] by blast
  show ?thesis using h s g by (simp add: useDigitsToKwh_def n)
qed

lemma useDigitsToKwh_digit_triple:
  assumes "useDigitsToKwh c = Some d"
  shows "digit_triple d" and "code d = normalize_code c"
  using assms useDigitsToKwh_total [of c] by (auto simp add: digit_triple_def)

text \<open>
  Claim C2. For every input (a string, the empty string, or no route parameter at all) the
  normaliser returns exactly three characters, all of them ASCII digits, namely the first
  three characters of the input's digits padded on the left with \<open>0\<close> to three; the hook
  \<open>useDigitsToKwh\<close> always returns a value, with that code and three digit values;
  \<open>"report"\<close> and the empty string give \<open>"000"\<close>.
\<close>

theorem normalize_code_three_digits:
  "length (normalize_code c) = 3
   \<and> list_all is_digit (normalize_code c)
   \<and> normalize_code (Some s) =
       take 3 (replicate (3 - length (filter is_digit s)) (CHR ''0'') @ filter is_digit s)
   \<and> (\<exists>h sol g. useDigitsToKwh c =
          Some \<lparr>code = normalize_code c, homeKWh = h, solarKWh = sol, gridKWh = g\<rparr>
          \<and> is_digit_value h \<and> is_digit_value sol \<and> is_digit_value g)
   \<and> normalize_code (Some ''report'') = ''000''
   \<and> normalize_code (Some []) = ''000''
   \<and> normalize_code None = ''000''"
proof (intro conjI)
  show "length (normalize_code c) = 3" by (rule normalize_code_length)
  show "list_all is_digit (normalize_code c)" by (rule normalize_code_digits)
  show "normalize_code (Some s) =
      take 3 (replicate (3 - length (filter is_digit s)) (CHR ''0'') @ filter is_digit s)"
    by (simp add: normalize_code_def padStart_def)
  show "\<exists>h sol g. useDigitsToKwh c =
          Some \<lparr>code = normalize_code c, homeKWh = h, solarKWh = sol, gridKWh = g\<rparr>
          \<and> is_digit_value h \<and> is_digit_value sol \<and> is_digit_value g"
    by (rule useDigitsToKwh_total)
  show "normalize_code (Some ''report'') = ''000''" by code_simp
  show "normalize_code (Some []) = ''000''" by code_simp
  show "normalize_code None = ''000''" by code_simp
qed

section \<open>The battery share\<close>

lemma floor_eleven_percent:
  assumes "is_digit_value s"
  shows "Math_floor (real_of_int s * 0.11) = 0"
  using assms unfolding is_digit_value_def Math_floor_def by (simp add: floor_eq_iff)

lemma battery_zero:
  assumes e: "digit_triple e"
  shows "toBattery (allocSolarFlows (solarKWh e)) = 0
         \<and> toBattery (solarAllocation (dashboard_of e)) = 0
         \<and> fromBattery (homeAllocation (dashboard_of e)) = 0
         \<and> gaugeVal (dashboard_of e) = 0"
proof -
  from e have s: "is_digit_value (solarKWh e)" and h: "0 \<le> homeKWh e"
    by (simp_all add: digit_triple_def is_digit_value_def)
  have tb: "toBattery (allocSolarFlows (solarKWh e)) = 0"
    using floor_eleven_percent [OF s] by (simp add: allocSolarFlows_def Let_def)
  have "0 \<le> Math_floor (real_of_int (homeKWh e) * 0.25)"
    using h by (simp add: Math_floor_nonneg)
  then have fb: "fromBattery (allocHomeSources (homeKWh e) x 0) = 0" for x
    by (simp add: allocHomeSources_def Let_def)
  show ?thesis
    using tb fb
    by (simp add: solarAllocation_dashboard homeAllocation_dashboard dashboard_of_def Let_def)
qed

text \<open>
  Claim C9. For every solar digit, 11 percent of it rounds down to 0, so the battery part of
  the solar allocation is 0; hence the battery part of the home allocation is 0 and the
  gauge shows 0. This holds for every digit triple, and so for every route parameter \<open>c\<close>
  the dashboard can receive.
\<close>

theorem battery_always_empty:
  assumes "digit_triple d"
  shows "Math_floor (real_of_int (solarKWh d) * 0.11) = 0
         \<and> toBattery (allocSolarFlows (solarKWh d)) = 0
         \<and> toBattery (solarAllocation (dashboard_of d)) = 0
         \<and> fromBattery (homeAllocation (dashboard_of d)) = 0
         \<and> gaugeVal (dashboard_of d) = 0
         \<and> (\<exists>b. DashboardCharts c = Some b \<and> toBattery (solarAllocation b) = 0
               \<and> fromBattery (homeAllocation b) = 0 \<and> gaugeVal b = 0)"
proof -
  obtain e where e: "useDigitsToKwh c = Some e"
    using useDigitsToKwh_total [of c] by blast
  have "digit_triple e"
    using useDigitsToKwh_digit_triple(1) [OF e] .
  from battery_zero [OF this] e
  have "\<exists>b. DashboardCharts c = Some b \<and> toBattery (solarAllocation b) = 0
               \<and> fromBattery (homeAllocation b) = 0 \<and> gaugeVal b = 0"
    by (simp add: DashboardCharts_def)
  moreover have "Math_floor (real_of_int (solarKWh d) * 0.11) = 0"
    using assms floor_eleven_percent by (simp add: digit_triple_def)
  ultimately show ?thesis
    using battery_zero [OF assms] by blast
qed

theorem battery_always_empty_witness:
  "digit_triple \<lparr>code = ''099'', homeKWh = 0, solarKWh = 9, gridKWh = 9\<rparr>
   \<and> Math_floor (real_of_int 9 * 0.11) = 0
   \<and> toBattery (allocSolarFlows 9) = 0
   \<and> gaugeVal (dashboard_of \<lparr>code = ''099'', homeKWh = 0, solarKWh = 9, gridKWh = 9\<rparr>) = 0
   \<and> map_option gaugeVal (DashboardCharts (Some ''plan99'')) = Some 0"
proof -
  have h: "digit_triple \<lparr>code = ''099'', homeKWh = 0, solarKWh = 9, gridKWh = 9\<rparr>"
    by (simp add: digit_triple_def is_digit_value_def)
  show ?thesis
    using h battery_always_empty [OF h, of "Some ''plan99''"] by auto
qed

section \<open>The code 333\<close>

lemma useDigitsToKwh_333:
  "useDigitsToKwh (Some ''333'') =
     Some \<lparr>code = ''333'', homeKWh = 3, solarKWh = 3, gridKWh = 3\<rparr>"
  by code_simp

text \<open>
  Claim C4. The code \<open>"333"\<close> gives the digits (3, 3, 3), the solar allocation (0, 0, 3), the
  home allocation (0, 0, 3), 9 kWh in total, 2.7 kg of emissions and 1.35 kg avoided.
\<close>

theorem dashboard_333:
  "useDigitsToKwh (Some ''333'') =
     Some \<lparr>code = ''333'', homeKWh = 3, solarKWh = 3, gridKWh = 3\<rparr>
   \<and> map_option solarAllocation (DashboardCharts (Some ''333''))
       = Some \<lparr>toBattery = 0, toHome = 0, toGrid = 3\<rparr>
   \<and> map_option homeAllocation (DashboardCharts (Some ''333''))
       = Some \<lparr>fromSolar = 0, fromBattery = 0, fromGrid = 3\<rparr>
   \<and> map_option totalKWh (DashboardCharts (Some ''333'')) = Some 9
   \<and> map_option emissionsKg (DashboardCharts (Some ''333'')) = Some ((3 + 3) * 0.45)
   \<and> map_option emissionsKg (DashboardCharts (Some ''333'')) = Some 2.7
   \<and> map_option avoidedKg (DashboardCharts (Some ''333'')) = Some (3 * 0.45)
   \<and> map_option avoidedKg (DashboardCharts (Some ''333'')) = Some 1.35"
  by (simp add: DashboardCharts_def useDigitsToKwh_333 dashboard_of_def Let_def
      allocSolarFlows_def allocHomeSources_def Math_floor_def EF_GRID_def)

section \<open>Net export, gauge and grid bar\<close>

text \<open>
  Claim C5. For every digit triple, the net exported figure is \<open>max(toGrid - grid, 0)\<close>, the
  gauge value is \<open>min(100, toBattery * 10)\<close>, and the gauge value lies between 0 and 100.
\<close>

theorem net_exported_and_gauge:
  assumes "digit_triple d"
  shows "netExported (dashboard_of d) = max (toGrid (solarAllocation (dashboard_of d)) - gridKWh d) 0
         \<and> gaugeVal (dashboard_of d) = min 100 (toBattery (solarAllocation (dashboard_of d)) * 10)
         \<and> 0 \<le> gaugeVal (dashboard_of d) \<and> gaugeVal (dashboard_of d) \<le> 100"
proof -
  have "gaugeVal (dashboard_of d) = 0"
    using battery_zero [OF assms] by simp
  then show ?thesis
    by (simp add: dashboard_of_def Let_def)
qed

theorem net_exported_and_gauge_witness:
  "digit_triple \<lparr>code = ''092'', homeKWh = 0, solarKWh = 9, gridKWh = 2\<rparr>
   \<and> netExported (dashboard_of \<lparr>code = ''092'', homeKWh = 0, solarKWh = 9, gridKWh = 2\<rparr>) = 6
   \<and> gaugeVal (dashboard_of \<lparr>code = ''092'', homeKWh = 0, solarKWh = 9, gridKWh = 2\<rparr>) = 0"
proof -
  have h: "digit_triple \<lparr>code = ''092'', homeKWh = 0, solarKWh = 9, gridKWh = 2\<rparr>"
    by (simp add: digit_triple_def is_digit_value_def)
  show ?thesis
    using h net_exported_and_gauge [OF h]
    by (simp add: dashboard_of_def Let_def allocSolarFlows_def Math_floor_def)
qed

text \<open>
  The gauge formula clamps from above only; it stays within 0..100 because the battery part
  is never negative.
\<close>

lemma gaugeVal_range:
  assumes "0 \<le> solarKWh d"
  shows "0 \<le> gaugeVal (dashboard_of d) \<and> gaugeVal (dashboard_of d) \<le> 100"
  using allocSolarFlows_nonneg(1) [OF assms] by (simp add: dashboard_of_def Let_def)

text \<open>
  Claim C10. For every digit triple, the grid bar is one record named \<open>"Grid"\<close> whose
  \<open>fromGrid\<close> field is the grid digit itself and whose \<open>toGrid\<close> field is the solar
  allocation's \<open>toGrid\<close>. (The code 905 shows that the home allocation's \<open>fromGrid\<close>, 9 there,
  is another number than the bar's, 5.)
\<close>

theorem gridBar_record:
  assumes "digit_triple d"
  shows "gridBar (dashboard_of d) =
           [\<lparr>bar_name = ''Grid'', bar_fromGrid = gridKWh d,
             bar_toGrid = toGrid (solarAllocation (dashboard_of d))\<rparr>]"
  by (simp add: dashboard_of_def Let_def)

theorem gridBar_record_witness:
  "digit_triple \<lparr>code = ''905'', homeKWh = 9, solarKWh = 0, gridKWh = 5\<rparr>
   \<and> gridBar (dashboard_of \<lparr>code = ''905'', homeKWh = 9, solarKWh = 0, gridKWh = 5\<rparr>) =
       [\<lparr>bar_name = ''Grid'', bar_fromGrid = 5, bar_toGrid = 0\<rparr>]
   \<and> fromGrid (homeAllocation (dashboard_of \<lparr>code = ''905'', homeKWh = 9, solarKWh = 0, gridKWh = 5\<rparr>)) = 9"
proof -
  have h: "digit_triple \<lparr>code = ''905'', homeKWh = 9, solarKWh = 0, gridKWh = 5\<rparr>"
    by (simp add: digit_triple_def is_digit_value_def)
  show ?thesis
    using h gridBar_record [OF h]
    by (simp add: dashboard_of_def Let_def allocSolarFlows_def allocHomeSources_def Math_floor_def)
qed

section \<open>The two series\<close>

text \<open>The loop of \<open>buildSeries\<close> pushes the entries for \<open>i = 0, ..., 11\<close> in order.\<close>

lemma buildSeries_loop_eq:
  "i \<le> pts \<Longrightarrow> buildSeries_loop h s g i out = out @ map (week_point_at h s g) [i..<pts]"
proof (induction h s g i out rule: buildSeries_loop.induct)
  case (1 h s g i out)
  show ?case
  proof (cases "i < pts")
    case True
    then have "[i..<pts] = i # [i + 1..<pts]" by (simp add: upt_conv_Cons)
    with True 1 show ?thesis
      by (subst buildSeries_loop.simps) simp
  next
    case False
    with 1 show ?thesis by (subst buildSeries_loop.simps) simp
  qed
qed

lemma buildSeries_eq: "buildSeries h s g = map (week_point_at h s g) [0..<12]"
  using buildSeries_loop_eq [of 0 h s g "[]"] by (simp add: buildSeries_def pts_def)

lemma buildSeries_length: "length (buildSeries h s g) = 12"
  by (simp add: buildSeries_eq)

lemma buildSeries_nth: "i < 12 \<Longrightarrow> buildSeries h s g ! i = week_point_at h s g i"
  by (simp add: buildSeries_eq del: upt_Suc)

lemma daySeries_eq: "daySeries (dashboard_of d) = map (day_point_at (toHome (allocSolarFlows (solarKWh d))) (toGrid (allocSolarFlows (solarKWh d)))) [0..<10]"
  by (simp add: dashboard_of_def Let_def Array_from_def)

text \<open>
  Claim C6. For every digit triple, the weekly series has exactly 12 entries and the hourly
  series exactly 10, and every numeric field of every entry is at least 0.
\<close>

theorem series_lengths_nonneg:
  assumes "digit_triple d"
  shows "length (series (dashboard_of d)) = 12
         \<and> length (daySeries (dashboard_of d)) = 10
         \<and> (\<forall>p \<in> set (series (dashboard_of d)). 0 \<le> temperature p \<and> 0 \<le> humidity p \<and> 0 \<le> grid p)
         \<and> (\<forall>p \<in> set (daySeries (dashboard_of d)). 0 \<le> day_toHome p \<and> 0 \<le> orientation p)"
proof -
  have "series (dashboard_of d) = buildSeries (homeKWh d) (solarKWh d) (gridKWh d)"
    by (simp add: dashboard_of_def Let_def)
  then have 1: "length (series (dashboard_of d)) = 12"
    and 2: "\<forall>p \<in> set (series (dashboard_of d)). 0 \<le> temperature p \<and> 0 \<le> humidity p \<and> 0 \<le> grid p"
    by (auto simp add: buildSeries_eq week_point_at_def Let_def simp del: upt_Suc)
  have 3: "length (daySeries (dashboard_of d)) = 10"
    and 4: "\<forall>p \<in> set (daySeries (dashboard_of d)). 0 \<le> day_toHome p \<and> 0 \<le> orientation p"
    by (auto simp add: daySeries_eq day_point_at_def simp del: upt_Suc)
  from 1 2 3 4 show ?thesis by blast
qed

theorem series_lengths_nonneg_witness:
  "digit_triple \<lparr>code = ''090'', homeKWh = 0, solarKWh = 9, gridKWh = 0\<rparr>
   \<and> length (series (dashboard_of \<lparr>code = ''090'', homeKWh = 0, solarKWh = 9, gridKWh = 0\<rparr>)) = 12
   \<and> length (daySeries (dashboard_of \<lparr>code = ''090'', homeKWh = 0, solarKWh = 9, gridKWh = 0\<rparr>)) = 10
   \<and> series (dashboard_of \<lparr>code = ''090'', homeKWh = 0, solarKWh = 9, gridKWh = 0\<rparr>) ! 2 \<in> set (series (dashboard_of \<lparr>code = ''090'', homeKWh = 0, solarKWh = 9, gridKWh = 0\<rparr>))
   \<and> 0 \<le> temperature (series (dashboard_of \<lparr>code = ''090'', homeKWh = 0, solarKWh = 9, gridKWh = 0\<rparr>) ! 2)
   \<and> daySeries (dashboard_of \<lparr>code = ''090'', homeKWh = 0, solarKWh = 9, gridKWh = 0\<rparr>) ! 3 \<in> set (daySeries (dashboard_of \<lparr>code = ''090'', homeKWh = 0, solarKWh = 9, gridKWh = 0\<rparr>))
   \<and> 0 \<le> orientation (daySeries (dashboard_of \<lparr>code = ''090'', homeKWh = 0, solarKWh = 9, gridKWh = 0\<rparr>) ! 3)"
proof -
  have h: "digit_triple \<lparr>code = ''090'', homeKWh = 0, solarKWh = 9, gridKWh = 0\<rparr>"
    by (simp add: digit_triple_def is_digit_value_def)
  have m: "series (dashboard_of \<lparr>code = ''090'', homeKWh = 0, solarKWh = 9, gridKWh = 0\<rparr>) ! 2 \<in> set (series (dashboard_of \<lparr>code = ''090'', homeKWh = 0, solarKWh = 9, gridKWh = 0\<rparr>))"
     "daySeries (dashboard_of \<lparr>code = ''090'', homeKWh = 0, solarKWh = 9, gridKWh = 0\<rparr>) ! 3 \<in> set (daySeries (dashboard_of \<lparr>code = ''090'', homeKWh = 0, solarKWh = 9, gridKWh = 0\<rparr>))"
    using series_lengths_nonneg [OF h] by simp_all
  show ?thesis
    using h m series_lengths_nonneg [OF h] by blast
qed



text \<open>
  Values of the series where the phase is a multiple of \<open>Math.PI\<close>. \<open>Math.PI\<close> lies below
  \<open>pi\<close> by a little more than \<open>1.2e-16\<close>; the phases \<open>(3/3) * Math.PI\<close> and
  \<open>(6/3) * Math.PI\<close> are computed without rounding.
\<close>

lemma Math_PI_below_pi:
  "Math_PI < pi"
  "84 / 1000000000000000000 < pi - Math_PI"
  "pi - Math_PI < 6 / 100"
proof -
  show "84 / 1000000000000000000 < pi - Math_PI"
    using pi_lower by (simp add: Math_PI_def)
  then show "Math_PI < pi" by simp
  show "pi - Math_PI < 6 / 100"
    using pi_upper by (simp add: Math_PI_def)
qed

lemma fl_close_num: "\<bar>fl x - x\<bar> \<le> \<bar>x\<bar> / 9007199254740992"
  using fl_close [of x] by simp

lemma fl_Math_PI: "fl Math_PI = Math_PI"
  using fl_exact_div [of 7074237752028440 51] by (simp add: Math_PI_def)

lemma fl_two_Math_PI: "fl (2 * Math_PI) = 2 * Math_PI"
  using fl_exact_div [of 7074237752028440 50] by (simp add: Math_PI_def)

lemma phase_3: "fmul (fdiv 3 3) Math_PI = Math_PI"
  by (simp add: fmul_def fdiv_def fl_one fl_Math_PI)

lemma phase_6: "fmul (fdiv 6 3) Math_PI = 2 * Math_PI"
  by (simp add: fmul_def fdiv_def fl_two fl_two_Math_PI)

lemma phase_0: "fmul (fdiv 0 3) Math_PI = 0"
  by (simp add: fmul_def fdiv_def fl_zero)


text \<open>Sine and cosine near 0, and rounding next to \<open>1/2\<close>.\<close>

lemma sin_small_lower:
  fixes y :: real
  assumes "0 \<le> y" and "y \<le> 1 / 5"
  shows "99 / 100 * y \<le> sin y"
proof -
  have "\<bar>sin y - (\<Sum>m<3. sin_coeff m * y ^ m)\<bar> \<le> inverse (fact 3) * \<bar>y\<bar> ^ 3"
    by (rule Maclaurin_sin_bound)
  then have b: "\<bar>sin y - y\<bar> \<le> y ^ 3 / 6"
    using assms(1) by (simp add: eval_nat_numeral sin_coeff_def)
  have "y * y \<le> (1 / 5) * (1 / 5)"
    using assms by (intro mult_mono) simp_all
  then have "y * (y * y) \<le> y * (1 / 25)"
    using assms(1) by (intro mult_left_mono) simp_all
  then have "y ^ 3 / 6 \<le> y / 150"
    by (simp add: eval_nat_numeral)
  with b show ?thesis by linarith
qed

lemma cos_small_lower:
  fixes d :: real
  assumes "\<bar>d\<bar> \<le> 1 / 10"
  shows "99 / 100 \<le> cos d"
proof -
  have "\<bar>sin d\<bar> \<le> \<bar>d\<bar>" by (rule abs_sin_x_le_abs_x)
  then have "\<bar>sin d\<bar> * \<bar>sin d\<bar> \<le> (1 / 10) * (1 / 10)"
    using assms by (intro mult_mono) simp_all
  then have s: "(sin d)\<^sup>2 \<le> 1 / 100"
    by (simp add: power2_eq_square)
  have "(sin d)\<^sup>2 + (cos d)\<^sup>2 = 1" by simp
  with s have c2: "99 / 100 \<le> (cos d)\<^sup>2" by linarith
  have c0: "0 \<le> cos d"
    using assms pi_ge_two by (intro cos_ge_zero) linarith+
  have "cos d * cos d \<le> cos d * 1"
    using c0 by (intro mult_left_mono) simp_all
  with c2 show ?thesis by (simp add: power2_eq_square)
qed

lemma fl_below_half:
  assumes "1 / 4 \<le> x" and "x < 1 / 2 - 1 / 2 ^ 55"
  shows "fl x < 1 / 2"
proof -
  have lo: "2 powr real_of_int (- 2) \<le> \<bar>x\<bar>"
    using assms(1) by (simp add: powr_minus)
  have hi: "\<bar>x\<bar> < 2 powr (real_of_int (- 2) + 1)"
    using assms by (simp add: powr_minus)
  have u: "2 powr real_of_int (- 2 - 52) = 1 / 2 ^ 54"
    by (simp add: powr_minus inverse_eq_divide)
  have e: "fl x = real_of_int (round_even (x * 2 ^ 54)) / 2 ^ 54"
    using fl_binade [OF lo hi] unfolding u by simp
  have "x * 2 ^ 54 < 2 ^ 53 - 1 / 2"
    using assms(2) by simp
  with round_even_close [of "x * 2 ^ 54"]
  have "real_of_int (round_even (x * 2 ^ 54)) < 2 ^ 53" by linarith
  then show ?thesis unfolding e by simp
qed

lemma fl_above_half:
  assumes "1 / 2 \<le> x" and "x < 1"
  shows "1 / 2 \<le> fl x"
proof -
  have lo: "2 powr real_of_int (- 1) \<le> \<bar>x\<bar>"
    using assms(1) by (simp add: powr_minus)
  have hi: "\<bar>x\<bar> < 2 powr (real_of_int (- 1) + 1)"
    using assms by simp
  have u: "2 powr real_of_int (- 1 - 52) = 1 / 2 ^ 53"
    by (simp add: powr_minus inverse_eq_divide)
  define z where "z = x * 2 ^ 53"
  have e: "fl x = real_of_int (round_even z) / 2 ^ 53"
    using fl_binade [OF lo hi] unfolding u z_def by simp
  have "4503599627370496 \<le> z"
    using assms(1) by (simp add: z_def)
  with round_even_close [of z]
  have "real_of_int 4503599627370495 < real_of_int (round_even z)" by linarith
  then have "4503599627370495 < round_even z" by (simp only: of_int_less_iff)
  then have "4503599627370496 \<le> round_even z" by linarith
  then have "real_of_int 4503599627370496 \<le> real_of_int (round_even z)"
    by (simp only: of_int_le_iff)
  then show ?thesis unfolding e by simp
qed


lemma mult_pos_neg_le:
  fixes a s :: real
  assumes "al \<le> a" "0 \<le> al" "s \<le> sh" "sh \<le> 0"
  shows "a * s \<le> al * sh"
proof -
  have "a * s \<le> a * sh" using assms by (intro mult_left_mono) simp_all
  also have "a * sh \<le> al * sh" using assms by (intro mult_right_mono_neg) simp_all
  finally show ?thesis .
qed

lemma mult_pos_neg_ge:
  fixes a s :: real
  assumes "a \<le> ah" "0 \<le> a" "sl \<le> s" "s \<le> 0"
  shows "ah * sl \<le> a * s"
proof -
  have "ah * sl \<le> a * sl" using assms by (intro mult_right_mono_neg) simp_all
  also have "a * sl \<le> a * s" using assms by (intro mult_left_mono) simp_all
  finally show ?thesis .
qed

lemma fdiv_1_5: "1999 / 10000 \<le> fdiv 1 5" "fdiv 1 5 \<le> 2001 / 10000"
  using fl_close_num [of "1 / 5"] unfolding fdiv_def by argo+

lemma fdiv_1_2: "fdiv 1 2 = 1 / 2"
  by (simp add: fdiv_def fl_half)

lemma Math_sin_two_PI:
  "Math_sin (2 * Math_PI) \<le> - 165 / 1000000000000000000"
  "- 13 / 100 \<le> Math_sin (2 * Math_PI)"
proof -
  define y where "y = 2 * (pi - Math_PI)"
  have y1: "168 / 1000000000000000000 < y"
    using Math_PI_below_pi(2) unfolding y_def by argo
  have y2: "y < 12 / 100"
    using Math_PI_below_pi(3) unfolding y_def by argo
  note y = y1 y2
  have "2 * Math_PI = 2 * pi - y" by (simp add: y_def)
  then have S: "sin (2 * Math_PI) = - sin y" by (simp only: sin_2pi_minus)
  have "99 / 100 * y \<le> sin y" using y by (intro sin_small_lower) argo+
  moreover have "sin y \<le> y" using y by (intro sin_x_le_x) argo
  ultimately have b: "sin (2 * Math_PI) \<le> - 166 / 1000000000000000000"
    "- 12 / 100 \<le> sin (2 * Math_PI)"
    using y unfolding S by argo+
  show "Math_sin (2 * Math_PI) \<le> - 165 / 1000000000000000000"
    using fl_close_num [of "sin (2 * Math_PI)"] b unfolding Math_sin_def by argo
  show "- 13 / 100 \<le> Math_sin (2 * Math_PI)"
    using fl_close_num [of "sin (2 * Math_PI)"] b unfolding Math_sin_def by argo
qed

text \<open>
  The hourly value at index 6 for \<open>toHome = 1\<close>: the sum lies below \<open>1/2\<close> by more than half
  a unit in the last place, so it is rounded to a double below \<open>1/2\<close> and \<open>Math.round\<close>
  gives 0.
\<close>

lemma day_toHome_one_six: "day_toHome (day_point_at 1 g 6) = 0"
proof -
  define s where "s = Math_sin (2 * Math_PI)"
  define a where "a = fdiv 1 5"
  define p where "p = fmul a s"
  have s: "s \<le> - 165 / 1000000000000000000" "- 13 / 100 \<le> s"
    using Math_sin_two_PI by (simp_all only: s_def)
  have a: "1999 / 10000 \<le> a" "a \<le> 2001 / 10000"
    using fdiv_1_5 by (simp_all only: a_def)
  have "a * s \<le> (1999 / 10000) * (- 165 / 1000000000000000000)"
    using a s by (intro mult_pos_neg_le) argo+
  moreover have "(2001 / 10000) * (- 13 / 100) \<le> a * s"
    using a s by (intro mult_pos_neg_ge) argo+
  ultimately have as: "a * s \<le> - 329 / 10000000000000000000" "- 3 / 100 \<le> a * s"
    by simp_all
  have p: "p \<le> - 32 / 1000000000000000000" "- 4 / 100 \<le> p"
    using fl_close_num [of "a * s"] as unfolding p_def fmul_def by argo+
  have x: "1 / 4 \<le> p + 1 / 2" "p + 1 / 2 < 1 / 2 - 1 / 2 ^ 55"
    using p by simp_all
  have "fl (p + 1 / 2) < 1 / 2"
    using x by (rule fl_below_half)
  moreover have "0 < fl (p + 1 / 2)"
    using x by (intro fl_pos) argo
  ultimately have "Math_round (fadd p (fdiv 1 2)) = 0"
    by (simp add: Math_round_def fadd_def fdiv_1_2 floor_eq_iff)
  then show ?thesis
    by (simp add: day_point_at_def phase_6 p_def a_def s_def)
qed


lemma Math_cos_PI: "Math_cos Math_PI \<le> - 98 / 100" "- 101 / 100 \<le> Math_cos Math_PI"
proof -
  define d where "d = pi - Math_PI"
  have d: "0 < d" "d < 6 / 100"
    using Math_PI_below_pi unfolding d_def by argo+
  have "cos Math_PI = cos (pi - d)" by (simp add: d_def)
  also have "\<dots> = - cos d" by (rule cos_pi_minus)
  finally have C: "cos Math_PI = - cos d" .
  have "99 / 100 \<le> cos d" using d by (intro cos_small_lower) argo
  moreover have "cos d \<le> 1" by simp
  ultimately have b: "cos Math_PI \<le> - 99 / 100" "- 1 \<le> cos Math_PI"
    unfolding C by argo+
  show "Math_cos Math_PI \<le> - 98 / 100"
    using fl_close_num [of "cos Math_PI"] b unfolding Math_cos_def by argo
  show "- 101 / 100 \<le> Math_cos Math_PI"
    using fl_close_num [of "cos Math_PI"] b unfolding Math_cos_def by argo
qed

lemma Math_sin_PI: "0 \<le> Math_sin Math_PI" "Math_sin Math_PI \<le> 7 / 100"
proof -
  define d where "d = pi - Math_PI"
  have d: "0 < d" "d < 6 / 100"
    using Math_PI_below_pi unfolding d_def by argo+
  have "sin Math_PI = sin (pi - d)" by (simp add: d_def)
  also have "\<dots> = sin d" by (rule sin_pi_minus)
  finally have S: "sin Math_PI = sin d" .
  have "0 \<le> sin d" using d pi_ge_two by (intro sin_ge_zero) argo+
  moreover have "sin d \<le> d" using d by (intro sin_x_le_x) argo
  ultimately have b: "0 \<le> sin Math_PI" "sin Math_PI \<le> 6 / 100"
    using d unfolding S by argo+
  show "0 \<le> Math_sin Math_PI"
    using fl_close_num [of "sin Math_PI"] b unfolding Math_sin_def by argo
  show "Math_sin Math_PI \<le> 7 / 100"
    using fl_close_num [of "sin Math_PI"] b unfolding Math_sin_def by argo
qed

lemma fdiv_8_5: "1599 / 1000 \<le> fdiv 8 5" "fdiv 8 5 \<le> 1601 / 1000"
  using fl_close_num [of "8 / 5"] unfolding fdiv_def by argo+

lemma fdiv_8_2: "fdiv 8 2 = 4"
  by (simp add: fdiv_def fl_four)

lemma fdiv_9_2: "0 \<le> fdiv 9 2" "fdiv 9 2 \<le> 451 / 100"
  using fl_close_num [of "9 / 2"] unfolding fdiv_def by argo+

text \<open>The hourly values at index 3, where the phase is \<open>Math.PI\<close>.\<close>

lemma orientation_eight_three: "orientation (day_point_at h 8 3) = 2"
proof -
  define c where "c = Math_cos Math_PI"
  define a where "a = fdiv 8 5"
  have c: "c \<le> - 98 / 100" "- 101 / 100 \<le> c"
    using Math_cos_PI by (simp_all only: c_def)
  have a: "1599 / 1000 \<le> a" "a \<le> 1601 / 1000"
    using fdiv_8_5 by (simp_all only: a_def)
  have "a * c \<le> (1599 / 1000) * (- 98 / 100)"
    using a c by (intro mult_pos_neg_le) argo+
  moreover have "(1601 / 1000) * (- 101 / 100) \<le> a * c"
    using a c by (intro mult_pos_neg_ge) argo+
  ultimately have ac: "a * c \<le> - 156 / 100" "- 162 / 100 \<le> a * c"
    by simp_all
  have p: "fmul a c \<le> - 155 / 100" "- 163 / 100 \<le> fmul a c"
    using fl_close_num [of "a * c"] ac unfolding fmul_def by argo+
  have "fadd (fmul a c) 4 \<le> 246 / 100" "236 / 100 \<le> fadd (fmul a c) 4"
    using fl_close_num [of "fmul a c + 4"] p unfolding fadd_def by argo+
  then have "Math_round (fadd (fmul a c) (fdiv 8 2)) = 2"
    unfolding Math_round_def fdiv_8_2 floor_eq_iff by simp
  then show ?thesis
    by (simp add: day_point_at_def phase_3 a_def c_def)
qed

lemma day_toHome_one_three: "day_toHome (day_point_at 1 g 3) = 1"
proof -
  define s where "s = Math_sin Math_PI"
  define a where "a = fdiv 1 5"
  have s: "0 \<le> s" "s \<le> 7 / 100"
    using Math_sin_PI by (simp_all only: s_def)
  have a: "1999 / 10000 \<le> a" "a \<le> 2001 / 10000"
    using fdiv_1_5 by (simp_all only: a_def)
  have "0 \<le> a * s"
    using a s by (intro mult_nonneg_nonneg) argo+
  moreover have "a * s \<le> (2001 / 10000) * (7 / 100)"
    using a s by (intro mult_mono) argo+
  ultimately have as: "0 \<le> a * s" "a * s \<le> 2 / 100"
    by simp_all
  have p: "0 \<le> fmul a s" "fmul a s \<le> 3 / 100"
    using fl_close_num [of "a * s"] as unfolding fmul_def by argo+
  have "1 / 2 \<le> fl (fmul a s + 1 / 2)"
    using p by (intro fl_above_half) argo+
  moreover have "fl (fmul a s + 1 / 2) \<le> 6 / 10"
    using fl_close_num [of "fmul a s + 1 / 2"] p by argo
  ultimately have "Math_round (fadd (fmul a s) (fdiv 1 2)) = 1"
    unfolding Math_round_def fdiv_1_2 fadd_def floor_eq_iff by simp
  then show ?thesis
    by (simp add: day_point_at_def phase_3 a_def s_def)
qed

text \<open>The weekly temperature at index 2, where \<open>t = 3\<close> and the phase is \<open>Math.PI\<close>.\<close>

lemma temperature_nine_two: "temperature (week_point_at h 9 g 2) = 9"
proof -
  define s where "s = Math_sin Math_PI"
  define b where "b = fdiv 9 2"
  have s: "0 \<le> s" "s \<le> 7 / 100"
    using Math_sin_PI by (simp_all only: s_def)
  have b: "0 \<le> b" "b \<le> 451 / 100"
    using fdiv_9_2 by (simp_all only: b_def)
  have "0 \<le> s * b"
    using b s by (intro mult_nonneg_nonneg) argo+
  moreover have "s * b \<le> (7 / 100) * (451 / 100)"
    using b s by (intro mult_mono) argo+
  ultimately have sb: "0 \<le> s * b" "s * b \<le> 32 / 100"
    by simp_all
  have "0 \<le> fmul s b" "fmul s b \<le> 33 / 100"
    using fl_close_num [of "s * b"] sb unfolding fmul_def by argo+
  then have "Math_round (fmul s b) = 0"
    unfolding Math_round_def floor_eq_iff by simp
  then show ?thesis
    by (simp add: week_point_at_def phase_3 b_def s_def)
qed

lemma zero_base: "Math_round (fmul w (fdiv 0 2)) = 0"
  by (simp add: fmul_def fdiv_def fl_zero Math_round_def)


lemma allocSolarFlows_9: "allocSolarFlows 9 = \<lparr>toBattery = 0, toHome = 1, toGrid = 8\<rparr>"
  by (simp add: allocSolarFlows_def Math_floor_def)

lemma spec_series_value_eight_three: "spec_series_value 8 (Math_cos Math_PI) = 4"
proof -
  define c where "c = Math_cos Math_PI"
  have c: "c \<le> - 98 / 100" "- 101 / 100 \<le> c"
    using Math_cos_PI by (simp_all only: c_def)
  have "fmul c 4 \<le> - 391 / 100" "- 405 / 100 \<le> fmul c 4"
    using fl_close_num [of "c * 4"] c unfolding fmul_def by argo+
  then have "Math_round (fmul c (fdiv 8 2)) = - 4"
    unfolding Math_round_def fdiv_8_2 floor_eq_iff by simp
  then show ?thesis
    by (simp add: spec_series_value_def c_def)
qed

text \<open>
  Claim C3, as stated, fails on the hourly series. For the code 090 the solar allocation
  sends 8 to the grid; at index 3 the phase is \<open>Math.PI\<close>, its cosine is \<open>-1\<close>, and the code
  computes \<open>round(8/5 * (-1) + 8/2) = 2\<close>, where the stated formula gives
  \<open>8 + round((-1) * 8/2) = 4\<close>.
\<close>

theorem series_formula_counterexample:
  "orientation (daySeries (dashboard_of \<lparr>code = ''090'', homeKWh = 0, solarKWh = 9, gridKWh = 0\<rparr>) ! 3) = 2
   \<and> spec_series_value (toGrid (solarAllocation (dashboard_of \<lparr>code = ''090'', homeKWh = 0, solarKWh = 9, gridKWh = 0\<rparr>)))
         (Math_cos (fmul (fdiv 3 3) Math_PI)) = 4
   \<and> orientation (daySeries (dashboard_of \<lparr>code = ''090'', homeKWh = 0, solarKWh = 9, gridKWh = 0\<rparr>) ! 3)
       \<noteq> spec_series_value (toGrid (solarAllocation (dashboard_of \<lparr>code = ''090'', homeKWh = 0, solarKWh = 9, gridKWh = 0\<rparr>)))
           (Math_cos (fmul (fdiv 3 3) Math_PI))"
  by (simp add: daySeries_eq allocSolarFlows_9 solarAllocation_dashboard phase_3
      orientation_eight_three spec_series_value_eight_three del: upt_Suc)

text \<open>
  The formula of the claim cannot give 2 for the base 8 under any phase: a sine or cosine
  is at least \<open>-1\<close>.
\<close>

lemma spec_series_value_base_8:
  "4 \<le> spec_series_value 8 (Math_sin x)" "4 \<le> spec_series_value 8 (Math_cos x)"
proof -
  have r: "4 \<le> spec_series_value 8 (fl v)" if "- 1 \<le> v" for v
  proof -
    have w: "- 101 / 100 \<le> fl v"
      using fl_close_num [of v] that by argo
    have "- 405 / 100 \<le> fmul (fl v) 4"
      using fl_close_num [of "fl v * 4"] w unfolding fmul_def by argo
    then have "- 4 \<le> Math_round (fmul (fl v) (fdiv 8 2))"
      unfolding Math_round_def fdiv_8_2 le_floor_iff by simp
    then show ?thesis
      by (simp add: spec_series_value_def)
  qed
  show "4 \<le> spec_series_value 8 (Math_sin x)"
    unfolding Math_sin_def by (rule r) simp
  show "4 \<le> spec_series_value 8 (Math_cos x)"
    unfolding Math_cos_def by (rule r) simp
qed

text \<open>
  Claim C3, amended. All arithmetic is that of doubles. The entry of the weekly series at
  index \<open>i < 12\<close> is labelled \<open>W(i+1)\<close> and holds \<open>base + round(w * (base/2))\<close> clamped at 0,
  where \<open>w\<close> is the sine of \<open>((i+1)/3) * Math.PI\<close> for the solar base, the cosine of
  \<open>((i+1)/4) * Math.PI\<close> for the home base and the sine of \<open>((i+1)/5) * Math.PI\<close> for the
  grid base. The entry of the hourly series at index \<open>j < 10\<close> is labelled \<open>j:00\<close> and holds
  \<open>round((base/5) * w + base/2)\<close> clamped at 0, where \<open>w\<close> is the sine of \<open>(j/3) * Math.PI\<close>
  for the base \<open>toHome\<close> and the cosine of \<open>(j/3) * Math.PI\<close> for the base \<open>toGrid\<close>.
\<close>

theorem series_entries:
  assumes "i < 12" and "j < 10"
  shows "series (dashboard_of d) ! i =
           \<lparr>wk_t = ''W'' @ String_nat (i + 1),
            temperature = spec_series_value (solarKWh d)
              (Math_sin (fmul (fdiv (real (i + 1)) 3) Math_PI)),
            humidity = spec_series_value (homeKWh d)
              (Math_cos (fmul (fdiv (real (i + 1)) 4) Math_PI)),
            grid = spec_series_value (gridKWh d)
              (Math_sin (fmul (fdiv (real (i + 1)) 5) Math_PI))\<rparr>
         \<and> daySeries (dashboard_of d) ! j =
           \<lparr>day_t = String_nat j @ '':00'',
            day_toHome = max 0 (Math_round
              (fadd (fmul (fdiv (real_of_int (toHome (solarAllocation (dashboard_of d)))) 5)
                          (Math_sin (fmul (fdiv (real j) 3) Math_PI)))
                    (fdiv (real_of_int (toHome (solarAllocation (dashboard_of d)))) 2))),
            orientation = max 0 (Math_round
              (fadd (fmul (fdiv (real_of_int (toGrid (solarAllocation (dashboard_of d)))) 5)
                          (Math_cos (fmul (fdiv (real j) 3) Math_PI)))
                    (fdiv (real_of_int (toGrid (solarAllocation (dashboard_of d)))) 2)))\<rparr>"
proof -
  have "series (dashboard_of d) = buildSeries (homeKWh d) (solarKWh d) (gridKWh d)"
    by (simp add: dashboard_of_def Let_def)
  with assms(1) have "series (dashboard_of d) ! i = week_point_at (homeKWh d) (solarKWh d) (gridKWh d) i"
    by (simp add: buildSeries_nth)
  moreover from assms(2) have "daySeries (dashboard_of d) ! j =
     day_point_at (toHome (allocSolarFlows (solarKWh d))) (toGrid (allocSolarFlows (solarKWh d))) j"
    by (simp add: daySeries_eq del: upt_Suc)
  ultimately show ?thesis
    by (simp add: week_point_at_def day_point_at_def spec_series_value_def Let_def
        solarAllocation_dashboard)
qed

theorem series_entries_witness:
  "(2::nat) < 12 \<and> (3::nat) < 10
   \<and> series (dashboard_of \<lparr>code = ''090'', homeKWh = 0, solarKWh = 9, gridKWh = 0\<rparr>) ! 2 = \<lparr>wk_t = ''W3'', temperature = 9, humidity = 0, grid = 0\<rparr>
   \<and> daySeries (dashboard_of \<lparr>code = ''090'', homeKWh = 0, solarKWh = 9, gridKWh = 0\<rparr>) ! 3 = \<lparr>day_t = ''3:00'', day_toHome = 1, orientation = 2\<rparr>"
proof -
  have s3: "String_nat 3 = ''3''" by code_simp
  have h1: "(2::nat) < 12" and h2: "(3::nat) < 10" by simp_all
  have t: "spec_series_value 9 (Math_sin (fmul (fdiv 3 3) Math_PI)) = 9"
    using temperature_nine_two [of 0 0]
    by (simp add: week_point_at_def spec_series_value_def)
  have z: "spec_series_value 0 w = 0" for w
    by (simp add: spec_series_value_def zero_base)
  have a: "max 0 (Math_round (fadd (fmul (fdiv 1 5) (Math_sin (fmul (fdiv 3 3) Math_PI))) (fdiv 1 2))) = 1"
    using day_toHome_one_three [of 8] by (simp add: day_point_at_def)
  have b: "max 0 (Math_round (fadd (fmul (fdiv 8 5) (Math_cos (fmul (fdiv 3 3) Math_PI))) (fdiv 8 2))) = 2"
    using orientation_eight_three [of 1] by (simp add: day_point_at_def)
  show ?thesis
    using series_entries [OF h1 h2, of "\<lparr>code = ''090'', homeKWh = 0, solarKWh = 9, gridKWh = 0\<rparr>"]
    by (simp add: s3 solarAllocation_dashboard allocSolarFlows_9 t z a b)
qed

text \<open>
  The hourly series of the code 090, whose solar allocation sends 1 to the home: the value
  at index 6 is 0.
\<close>

lemma daySeries_090_six:
  "day_toHome (daySeries (dashboard_of \<lparr>code = ''090'', homeKWh = 0, solarKWh = 9, gridKWh = 0\<rparr>) ! 6) = 0"
  by (simp add: daySeries_eq allocSolarFlows_9 day_toHome_one_six del: upt_Suc)

section \<open>Determinism\<close>

text \<open>A digit value comes from one character only, so the triple fixes the normalised code.\<close>

lemma Number_char_inj:
  assumes "Number_char x = Some v" "Number_char y = Some v"
  shows "x = y"
  using assms by (auto simp add: Number_char_def split: if_splits)

lemma useDigitsToKwh_Some:
  assumes "useDigitsToKwh c = Some d"
  shows "\<exists>x y z. code d = [x, y, z] \<and> Number_char x = Some (homeKWh d)
           \<and> Number_char y = Some (solarKWh d) \<and> Number_char z = Some (gridKWh d)"
proof -
  obtain x y z where n: "normalize_code c = [x, y, z]"
    using length_three [OF normalize_code_length] by blast
  show ?thesis
    using assms by (auto simp add: useDigitsToKwh_def n split: option.splits)
qed

text \<open>
  Claim C7. The derivation is deterministic. Every definition above is a function of its
  arguments alone: nothing is read from a state or a random source, so a second invocation on
  the same input returns the same bundle. Moreover the bundle depends on the route
  parameter only through the digit triple: two invocations whose parameters give the same
  triple return identical bundles (allocations, totals, both series, pie and bar records,
  net export and gauge).
\<close>

theorem dashboard_determined_by_triple:
  assumes "useDigitsToKwh c1 = Some d1" and "useDigitsToKwh c2 = Some d2"
    and "homeKWh d1 = homeKWh d2" and "solarKWh d1 = solarKWh d2" and "gridKWh d1 = gridKWh d2"
  shows "DashboardCharts c1 = DashboardCharts c2"
proof -
  obtain x1 y1 z1 where 1: "code d1 = [x1, y1, z1]" "Number_char x1 = Some (homeKWh d1)"
     "Number_char y1 = Some (solarKWh d1)" "Number_char z1 = Some (gridKWh d1)"
    using useDigitsToKwh_Some [OF assms(1)] by blast
  obtain x2 y2 z2 where 2: "code d2 = [x2, y2, z2]" "Number_char x2 = Some (homeKWh d2)"
     "Number_char y2 = Some (solarKWh d2)" "Number_char z2 = Some (gridKWh d2)"
    using useDigitsToKwh_Some [OF assms(2)] by blast
  have "x1 = x2" using 1(2) 2(2) assms(3) by (simp add: Number_char_inj)
  moreover have "y1 = y2" using 1(3) 2(3) assms(4) by (simp add: Number_char_inj)
  moreover have "z1 = z2" using 1(4) 2(4) assms(5) by (simp add: Number_char_inj)
  ultimately have "code d1 = code d2" using 1(1) 2(1) by simp
  with assms(3-5) have "d1 = d2" by simp
  with assms(1,2) show ?thesis by (simp add: DashboardCharts_def)
qed

theorem dashboard_determined_by_triple_witness:
  "useDigitsToKwh (Some ''333'') = Some \<lparr>code = ''333'', homeKWh = 3, solarKWh = 3, gridKWh = 3\<rparr>
   \<and> useDigitsToKwh (Some ''a3-3x3yy9'') = Some \<lparr>code = ''333'', homeKWh = 3, solarKWh = 3, gridKWh = 3\<rparr>
   \<and> DashboardCharts (Some ''333'') = DashboardCharts (Some ''a3-3x3yy9'')"
proof -
  have a: "useDigitsToKwh (Some ''333'') = Some \<lparr>code = ''333'', homeKWh = 3, solarKWh = 3, gridKWh = 3\<rparr>"
    by code_simp
  have b: "useDigitsToKwh (Some ''a3-3x3yy9'') = Some \<lparr>code = ''333'', homeKWh = 3, solarKWh = 3, gridKWh = 3\<rparr>"
    by code_simp
  show ?thesis
    using a b dashboard_determined_by_triple [OF a b] by simp
qed

section \<open>The upload page\<close>

text \<open>The two patterns, described from the end of the string.\<close>

lemma rev_takeWhile_all:
  assumes "\<forall>x \<in> set s. P x"
  shows "rev (takeWhile P (rev s)) = s"
proof -
  have "takeWhile P (rev s) = rev s"
    using assms by (simp add: takeWhile_eq_all_conv)
  then show ?thesis by (simp only: rev_rev_ident)
qed

lemma rev_takeWhile_snoc:
  assumes "\<forall>x \<in> set s. P x" and "\<not> P c"
  shows "rev (takeWhile P (rev s @ [c])) = s"
proof -
  have "takeWhile P (rev s @ [c]) = rev s @ takeWhile P [c]"
    using assms(1) by (intro takeWhile_append2) simp
  then have "takeWhile P (rev s @ [c]) = rev s"
    using assms(2) by simp
  then show ?thesis by (simp only: rev_rev_ident)
qed

lemma digits_here_trailing:
  assumes "digits_here s"
  shows "captured_digits s = s" and "last_is_digit s"
proof -
  from assms have l: "length s \<le> 3" and d: "\<forall>c \<in> set s. is_digit c" and n: "s \<noteq> []"
    by (auto simp add: digits_here_def list_all_iff)
  from l show "captured_digits s = s"
    by (simp add: captured_digits_def rev_takeWhile_all [OF d])
  from n d show "last_is_digit s"
    by (simp add: last_is_digit_def)
qed

lemma not_digits_here_Cons:
  assumes "\<not> digits_here (c # cs)"
  shows "captured_digits (c # cs) = captured_digits cs" and "last_is_digit (c # cs) = last_is_digit cs"
proof -
  show "last_is_digit (c # cs) = last_is_digit cs"
    using assms by (cases cs) (auto simp add: last_is_digit_def digits_here_def)
  show "captured_digits (c # cs) = captured_digits cs"
  proof (cases "3 \<le> length cs")
    case True
    then show ?thesis by (simp add: captured_digits_def)
  next
    case False
    then have l: "length cs < 3" by simp
    show ?thesis
    proof (cases "\<forall>x \<in> set cs. is_digit x")
      case True
      with assms l have "\<not> is_digit c" by (auto simp add: digits_here_def list_all_iff)
      with True l show ?thesis
        by (simp add: captured_digits_def rev_takeWhile_all rev_takeWhile_snoc)
    next
      case False
      with l show ?thesis
        by (auto simp add: captured_digits_def takeWhile_append1)
    qed
  qed
qed

lemma match_trailing_eq:
  "match_trailing s = (if last_is_digit s then Some (captured_digits s) else None)"
proof (induction s)
  case Nil
  show ?case by (simp add: last_is_digit_def)
next
  case (Cons c cs)
  show ?case
  proof (cases "digits_here (c # cs)")
    case True
    then show ?thesis using digits_here_trailing [OF True] by simp
  next
    case False
    then show ?thesis using not_digits_here_Cons [OF False] Cons.IH by simp
  qed
qed


lemma match_captured_digits_here: "match_trailing s = Some m \<Longrightarrow> digits_here m"
  by (induction s) (auto split: if_splits)

lemma parseInt10_digits:
  assumes "digits_here m"
  shows "parseInt10 m = Some (decimal_value m)"
proof -
  from assms have d: "\<forall>c \<in> set m. is_digit c" and n: "m \<noteq> []"
    by (auto simp add: digits_here_def list_all_iff)
  have tw: "takeWhile is_digit m = m"
    using d by (simp add: takeWhile_eq_all_conv)
  show ?thesis
    unfolding parseInt10_def Let_def tw using n by simp
qed

text \<open>\<open>extractTrailingNumber\<close> in terms of the last character and the captured digits.\<close>

lemma extractTrailingNumber_eq:
  "extractTrailingNumber name =
     (if \<not> last_is_digit (strip_extension name) then \<lparr>num = None, error = Some NoTrailingNumber\<rparr>
      else if decimal_value (captured_digits (strip_extension name)) \<in> {1..100}
      then \<lparr>num = Some (decimal_value (captured_digits (strip_extension name))), error = None\<rparr>
      else \<lparr>num = None, error = Some OutOfRange\<rparr>)"
proof (cases "last_is_digit (strip_extension name)")
  case False
  then show ?thesis by (simp add: extractTrailingNumber_def match_trailing_eq)
next
  case True
  then have m: "match_trailing (strip_extension name) = Some (captured_digits (strip_extension name))"
    by (simp add: match_trailing_eq)
  have "parseInt10 (captured_digits (strip_extension name))
          = Some (decimal_value (captured_digits (strip_extension name)))"
    using match_captured_digits_here [OF m] by (rule parseInt10_digits)
  with True m show ?thesis
    by (auto simp add: extractTrailingNumber_def)
qed

lemma extractTrailingNumber_num:
  assumes "num (extractTrailingNumber name) = Some n"
  shows "extractTrailingNumber name = \<lparr>num = Some n, error = None\<rparr>" and "1 \<le> n" and "n \<le> 100"
  using assms by (auto simp add: extractTrailingNumber_eq split: if_splits)

text \<open>The state's number, when there is one, is the number of the state's file name.\<close>

lemma file_checked_handle: "file_checked st \<Longrightarrow> file_checked (handle st e)"
proof (cases e)
  case (FileChange f)
  assume "file_checked st"
  then show ?thesis
    using FileChange extractTrailingNumber_num(1)
    by (cases f) (auto simp add: file_checked_def onFileChange_def Let_def)
next
  case (MapClick pos)
  assume "file_checked st"
  then show ?thesis using MapClick by (simp add: file_checked_def setMarker_def)
next
  case (SearchDone found)
  assume "file_checked st"
  then show ?thesis using SearchDone by (cases found) (simp_all add: file_checked_def doSearch_def)
qed

lemma file_checked_foldl: "file_checked st \<Longrightarrow> file_checked (foldl handle st es)"
  by (induction es arbitrary: st) (simp_all add: file_checked_handle)

lemma file_checked_after_events: "file_checked (after_events es)"
  unfolding after_events_def by (rule file_checked_foldl) (simp add: file_checked_def initial_state_def)

lemma String_nat_length:
  assumes "n < 1000"
  shows "length (String_nat n) \<le> 3"
proof -
  have a: "length (String_nat k) = 1" if "k < 10" for k
    using that by (subst String_nat.simps) simp
  have b: "length (String_nat k) \<le> 2" if "k < 100" for k
    using that a [of "k div 10"] by (subst String_nat.simps) simp
  show ?thesis
    using assms b [of "n div 10"] by (subst String_nat.simps) simp
qed

lemma padStart_length: "length s \<le> n \<Longrightarrow> length (padStart n c s) = n"
  by (simp add: padStart_def)

lemma handleContinue_Some:
  "(handleContinue st \<noteq> None) = (fileNumber st \<noteq> None \<and> fileError st = None \<and> marker st \<noteq> None)"
  by (auto simp add: handleContinue_def canContinue_def)

lemma handleContinue_nav:
  assumes "handleContinue st = Some nav"
  shows "\<exists>n pos. fileNumber st = Some n \<and> fileError st = None \<and> marker st = Some pos
           \<and> path nav = ''/dashboard/'' @ padStart 3 (CHR ''0'') (String_nat n)
           \<and> nav_fileName nav = fileName st \<and> nav_location nav = pos"
  using assms by (auto simp add: handleContinue_def canContinue_def split: if_splits)

text \<open>When the base name ends in at most three digits, the pattern captures all of them.\<close>

lemma takeWhile_take_short:
  "length (takeWhile P xs) \<le> n \<Longrightarrow> takeWhile P (take n xs) = takeWhile P xs"
proof (induction xs arbitrary: n)
  case Nil
  then show ?case by simp
next
  case (Cons x xs)
  then show ?case by (cases n) (auto split: if_splits)
qed

lemma captured_digits_run:
  assumes "length (digit_run s) \<le> 3"
  shows "captured_digits s = digit_run s"
  using assms takeWhile_take_short [of is_digit "rev s" 3]
  by (simp add: captured_digits_def digit_run_def)

lemma last_is_digit_run: "last_is_digit s = (digit_run s \<noteq> [])"
  by (cases "s = []") (simp_all add: last_is_digit_def digit_run_def takeWhile_eq_Nil_iff hd_rev)

lemma spec_file_error_short:
  assumes "length (digit_run (strip_extension name)) \<le> 3"
  shows "spec_file_error name =
           (\<not> last_is_digit (strip_extension name)
            \<or> decimal_value (captured_digits (strip_extension name)) \<notin> {1..100})"
proof -
  have "ends_in_1_to_3_digits (strip_extension name) = last_is_digit (strip_extension name)"
    using assms by (auto simp add: ends_in_1_to_3_digits_def last_is_digit_run Suc_le_eq)
  then show ?thesis
    by (simp add: spec_file_error_def captured_digits_run [OF assms])
qed

text \<open>
  Claim C8, as stated, fails on a base name that ends in more than three digits. The base
  name of \<open>plan1050.ifc\<close> ends in the four digits 1050: it does not end in 1-3 digits, and
  its trailing digits are a number outside 1..100, so the rule asks for an error. The pattern
  captures the last three digits only, and \<open>extractTrailingNumber\<close> returns the number 50
  and no error.
\<close>

theorem file_rule_counterexample:
  "digit_run (strip_extension ''plan1050.ifc'') = ''1050''
   \<and> \<not> ends_in_1_to_3_digits (strip_extension ''plan1050.ifc'')
   \<and> decimal_value (digit_run (strip_extension ''plan1050.ifc'')) = 1050
   \<and> spec_file_error ''plan1050.ifc''
   \<and> extractTrailingNumber ''plan1050.ifc'' = \<lparr>num = Some 50, error = None\<rparr>
   \<and> (error (extractTrailingNumber ''plan1050.ifc'') \<noteq> None) \<noteq> spec_file_error ''plan1050.ifc''"
proof -
  have a: "digit_run (strip_extension ''plan1050.ifc'') = ''1050''"
    by code_simp
  have b: "decimal_value ''1050'' = 1050"
    by code_simp
  have c: "extractTrailingNumber ''plan1050.ifc'' = \<lparr>num = Some 50, error = None\<rparr>"
    by code_simp
  show ?thesis
    unfolding spec_file_error_def ends_in_1_to_3_digits_def a b c by simp
qed

text \<open>
  Claim C8, amended. \<open>extractTrailingNumber\<close> returns an error exactly when it returns no
  number. For a file name whose base name (the name without its extension) ends in at most
  three digits, it returns an error exactly when the base name does not end in 1-3 digits
  or its trailing digits are a number outside 1..100, and otherwise the number of the
  trailing digits; nothing is said of base names that end in four or more digits.
  \<open>handleContinue\<close> navigates exactly when a number, no error and a marker are in the
  state; in every state the events can produce, the number is then the one returned for the
  chosen file, within 1..100, a coordinate exists, and the path is \<open>/dashboard/\<close> followed
  by the number padded with zeros to three characters.
\<close>

theorem upload_navigation:
  "(error (extractTrailingNumber name) \<noteq> None) = (num (extractTrailingNumber name) = None)
   \<and> (length (digit_run (strip_extension name)) \<le> 3 \<longrightarrow>
        (error (extractTrailingNumber name) \<noteq> None) = spec_file_error name
        \<and> (error (extractTrailingNumber name) = None \<longrightarrow>
             num (extractTrailingNumber name)
               = Some (decimal_value (digit_run (strip_extension name)))))
   \<and> (handleContinue st \<noteq> None) =
       (fileNumber st \<noteq> None \<and> fileError st = None \<and> marker st \<noteq> None)
   \<and> (handleContinue (after_events es) = Some nav \<longrightarrow>
        (\<exists>n pos. extractTrailingNumber (fileName (after_events es)) = \<lparr>num = Some n, error = None\<rparr>
           \<and> 1 \<le> n \<and> n \<le> 100
           \<and> marker (after_events es) = Some pos
           \<and> path nav = ''/dashboard/'' @ padStart 3 (CHR ''0'') (String_nat n)
           \<and> length (padStart 3 (CHR ''0'') (String_nat n)) = 3))"
proof (intro conjI impI)
  show "(error (extractTrailingNumber name) \<noteq> None) = (num (extractTrailingNumber name) = None)"
    by (simp add: extractTrailingNumber_eq)
  show "(error (extractTrailingNumber name) \<noteq> None) = spec_file_error name"
    if "length (digit_run (strip_extension name)) \<le> 3"
    by (simp add: extractTrailingNumber_eq spec_file_error_short [OF that])
  show "num (extractTrailingNumber name) = Some (decimal_value (digit_run (strip_extension name)))"
    if "length (digit_run (strip_extension name)) \<le> 3"
      and "error (extractTrailingNumber name) = None"
    using that(2) captured_digits_run [OF that(1)]
    by (simp add: extractTrailingNumber_eq split: if_splits)
  show "(handleContinue st \<noteq> None) =
       (fileNumber st \<noteq> None \<and> fileError st = None \<and> marker st \<noteq> None)"
    by (rule handleContinue_Some)
  show "\<exists>n pos. extractTrailingNumber (fileName (after_events es)) = \<lparr>num = Some n, error = None\<rparr>
           \<and> 1 \<le> n \<and> n \<le> 100
           \<and> marker (after_events es) = Some pos
           \<and> path nav = ''/dashboard/'' @ padStart 3 (CHR ''0'') (String_nat n)
           \<and> length (padStart 3 (CHR ''0'') (String_nat n)) = 3"
    if nav: "handleContinue (after_events es) = Some nav"
  proof -
    obtain n pos where n: "fileNumber (after_events es) = Some n"
      and pos: "marker (after_events es) = Some pos"
      and p: "path nav = ''/dashboard/'' @ padStart 3 (CHR ''0'') (String_nat n)"
      using handleContinue_nav [OF nav] by blast
    have e: "extractTrailingNumber (fileName (after_events es)) = \<lparr>num = Some n, error = None\<rparr>"
      using file_checked_after_events [of es] n by (simp add: file_checked_def)
    then have "num (extractTrailingNumber (fileName (after_events es))) = Some n" by simp
    then have r: "1 \<le> n" "n \<le> 100" by (rule extractTrailingNumber_num(2,3))+
    then have "length (padStart 3 (CHR ''0'') (String_nat n)) = 3"
      by (intro padStart_length String_nat_length) simp
    with e r pos p show ?thesis by blast
  qed
qed

theorem upload_navigation_witness:
  "length (digit_run (strip_extension ''plan042.ifc'')) \<le> 3
   \<and> \<not> spec_file_error ''plan042.ifc''
   \<and> error (extractTrailingNumber ''plan042.ifc'') = None
   \<and> num (extractTrailingNumber ''plan042.ifc'') = Some 42
   \<and> strip_extension ''plan042.ifc'' = ''plan042''
   \<and> digit_run ''plan042'' = ''042''
   \<and> handleContinue (after_events [FileChange (Some ''plan042.ifc''), MapClick \<lparr>lat = 1, lng = 2\<rparr>])
       = Some \<lparr>path = ''/dashboard/042'', nav_fileName = ''plan042.ifc'',
               nav_location = \<lparr>lat = 1, lng = 2\<rparr>\<rparr>
   \<and> marker (after_events [FileChange (Some ''plan042.ifc''), MapClick \<lparr>lat = 1, lng = 2\<rparr>])
       = Some \<lparr>lat = 1, lng = 2\<rparr>"
proof -
  have a: "extractTrailingNumber ''plan042.ifc'' = \<lparr>num = Some 42, error = None\<rparr>"
    by code_simp
  have b: "handleContinue (after_events [FileChange (Some ''plan042.ifc''), MapClick \<lparr>lat = 1, lng = 2\<rparr>])
       = Some \<lparr>path = ''/dashboard/042'', nav_fileName = ''plan042.ifc'',
               nav_location = \<lparr>lat = 1, lng = 2\<rparr>\<rparr>"
    by code_simp
  have c: "strip_extension ''plan042.ifc'' = ''plan042''" "digit_run ''plan042'' = ''042''"
    by code_simp+
  have d: "marker (after_events [FileChange (Some ''plan042.ifc''), MapClick \<lparr>lat = 1, lng = 2\<rparr>])
       = Some \<lparr>lat = 1, lng = 2\<rparr>"
    by code_simp
  have e: "length (digit_run (strip_extension ''plan042.ifc'')) \<le> 3"
    unfolding c by simp
  show ?thesis
    using a b c d e
      upload_navigation [of "''plan042.ifc''"
        "after_events [FileChange (Some ''plan042.ifc''), MapClick \<lparr>lat = 1, lng = 2\<rparr>]"
        "[FileChange (Some ''plan042.ifc''), MapClick \<lparr>lat = 1, lng = 2\<rparr>]"
        "\<lparr>path = ''/dashboard/042'', nav_fileName = ''plan042.ifc'',
               nav_location = \<lparr>lat = 1, lng = 2\<rparr>\<rparr>"]
    by simp
qed

text \<open>
  Names at the edges of the rule: no digits at the end, a number out of range, an extension
  that is itself a number, and a run of more than three digits, of which the pattern captures
  the last three.
\<close>

lemma extractTrailingNumber_examples:
  "extractTrailingNumber ''report.ifc'' = \<lparr>num = None, error = Some NoTrailingNumber\<rparr>"
  "extractTrailingNumber ''x000.csv'' = \<lparr>num = None, error = Some OutOfRange\<rparr>"
  "extractTrailingNumber ''x101.csv'' = \<lparr>num = None, error = Some OutOfRange\<rparr>"
  "extractTrailingNumber ''100'' = \<lparr>num = Some 100, error = None\<rparr>"
  "extractTrailingNumber ''a.b.101'' = \<lparr>num = None, error = Some NoTrailingNumber\<rparr>"
  "extractTrailingNumber ''plan1050.ifc'' = \<lparr>num = Some 50, error = None\<rparr>"
  by code_simp+

lemma strip_extension_last_dot:
  assumes "ext \<noteq> []" and "CHR ''.'' \<notin> set ext"
  shows "strip_extension (pre @ CHR ''.'' # ext) = pre"
  using assms by (induction pre) (auto simp add: ext_here_def)

end
